theory Spec2Isabelle
  imports Main "HOL-Library.Sublist" "HOL-Library.Char_ord" "HOL-Library.List_Lexorder"
    "HOL-Library.Multiset"
begin

section \<open>The snapshot escaping of the metadata codec\<close>

text \<open>
  \<^verbatim>\<open>str.replace(old, new)\<close> of Python: the occurrences of \<open>old\<close> are found from the
  left and do not overlap; each is replaced by \<open>new\<close>. For the empty pattern Python puts
  \<open>new\<close> in front of every character and at the end.
\<close>

function replace :: "string \<Rightarrow> string \<Rightarrow> string \<Rightarrow> string" where
  "replace old new s =
     (if old = [] then new @ concat (map (\<lambda>c. c # new) s)
      else if s = [] then []
      else if prefix old s then new @ replace old new (drop (length old) s)
      else hd s # replace old new (tl s))"
  by pat_completeness auto
termination
  by (relation "measure (\<lambda>(old, new, s). length s)") auto

declare replace.simps [simp del]

text \<open>
  \<^verbatim>\<open>sub in s\<close> of Python on strings.
\<close>

fun contains :: "string \<Rightarrow> string \<Rightarrow> bool" where
  "contains sub [] = (sub = [])"
| "contains sub (c # cs) = (prefix sub (c # cs) \<or> contains sub cs)"

text \<open>
  \<^verbatim>\<open>save_metadata\<close>, line 264:
  \<^verbatim>\<open>node_string.replace("<!--", "<!- -").replace("-->", "- ->")\<close>, and
  \<^verbatim>\<open>load_metadata\<close>, line 238:
  \<^verbatim>\<open>node_string.replace("<!- -", "<!--").replace("- ->", "-->")\<close>.
\<close>

definition escape_snapshot :: "string \<Rightarrow> string" where
  "escape_snapshot s = replace ''-->'' ''- ->'' (replace ''<!--'' ''<!- -'' s)"

definition unescape_snapshot :: "string \<Rightarrow> string" where
  "unescape_snapshot s = replace ''- ->'' ''-->'' (replace ''<!- -'' ''<!--'' s)"

text \<open>
  A snapshot the program makes of a plugin that was hidden after one of its own children:
  the plugin holds a \<^verbatim>\<open>files\<close> element with a comment, and the metadata comment that
  \<^verbatim>\<open>save_metadata\<close> wrote when the \<^verbatim>\<open>files\<close> element was hidden, whose mapping lists the
  escaped snapshot of that element. \<open>dq\<close> is the double quote.
\<close>

definition dq :: string where
  "dq = [CHR 0x22]"

definition nested_snapshot :: string where
  "nested_snapshot =
     ''<plugin name='' @ dq @ dq @ ''><files><!--a note--></files>''
     @ ''<!--<designer.metadata.do.not.edit> {'' @ dq @ ''hidden_nodes'' @ dq @ '':['' @ dq
     @ ''<files><!- -a note- -></files>'' @ dq @ '']}--></plugin>''"

section \<open>The schema registry\<close>

text \<open>
  One constructor per node class of \<^verbatim>\<open>nodes.py\<close>; \<^verbatim>\<open>type(x)\<close> of a node is its class.
\<close>

datatype node_class =
    NodeComment
  | NodeInfoRoot
  | NodeInfoName
  | NodeInfoAuthor
  | NodeInfoVersion
  | NodeInfoID
  | NodeInfoWebsite
  | NodeInfoDescription
  | NodeInfoGroup
  | NodeInfoElement
  | NodeConfigRoot
  | NodeConfigModName
  | NodeConfigModImage
  | NodeConfigModDepend
  | NodeConfigReqFiles
  | NodeConfigInstallSteps
  | NodeConfigCondInstall
  | NodeConfigDependFile
  | NodeConfigDependFlag
  | NodeConfigDependGame
  | NodeConfigFile
  | NodeConfigFolder
  | NodeConfigPatterns
  | NodeConfigPattern
  | NodeConfigFiles
  | NodeConfigDependencies
  | NodeConfigNestedDependencies
  | NodeConfigInstallStep
  | NodeConfigVisible
  | NodeConfigOptGroups
  | NodeConfigGroup
  | NodeConfigPlugins
  | NodeConfigPlugin
  | NodeConfigPluginDescription
  | NodeConfigImage
  | NodeConfigConditionFlags
  | NodeConfigTypeDesc
  | NodeConfigFlag
  | NodeConfigDependencyType
  | NodeConfigDefaultType
  | NodeConfigType
  | NodeConfigInstallPatterns
  | NodeConfigInstallPattern

text \<open>
  The arguments each class passes to \<^verbatim>\<open>init\<close> in its \<^verbatim>\<open>_init\<close> (and the attributes
  \<^verbatim>\<open>NodeComment._init\<close> assigns): \<^verbatim>\<open>name\<close>, \<^verbatim>\<open>allowed_instances\<close>, \<^verbatim>\<open>sort_order\<close>
  (default \<^verbatim>\<open>"0"\<close>), \<^verbatim>\<open>allowed_children\<close> (default empty) and the keys of
  \<^verbatim>\<open>properties\<close> (default empty). Nothing in the source assigns them again.
\<close>

primrec node_name :: "node_class \<Rightarrow> string" where
  "node_name NodeComment = ''Comment''"
| "node_name NodeInfoRoot = ''Info''"
| "node_name NodeInfoName = ''Name''"
| "node_name NodeInfoAuthor = ''Author''"
| "node_name NodeInfoVersion = ''Version''"
| "node_name NodeInfoID = ''ID''"
| "node_name NodeInfoWebsite = ''Website''"
| "node_name NodeInfoDescription = ''Description''"
| "node_name NodeInfoGroup = ''Categories Group''"
| "node_name NodeInfoElement = ''Category''"
| "node_name NodeConfigRoot = ''Config''"
| "node_name NodeConfigModName = ''Name''"
| "node_name NodeConfigModImage = ''Image''"
| "node_name NodeConfigModDepend = ''Mod Dependencies''"
| "node_name NodeConfigReqFiles = ''Mod Requirements''"
| "node_name NodeConfigInstallSteps = ''Installation Steps''"
| "node_name NodeConfigCondInstall = ''Conditional Installation''"
| "node_name NodeConfigDependFile = ''File Dependency''"
| "node_name NodeConfigDependFlag = ''Flag Dependency''"
| "node_name NodeConfigDependGame = ''Game Dependency''"
| "node_name NodeConfigFile = ''File''"
| "node_name NodeConfigFolder = ''Folder''"
| "node_name NodeConfigPatterns = ''Patterns''"
| "node_name NodeConfigPattern = ''Pattern''"
| "node_name NodeConfigFiles = ''Files''"
| "node_name NodeConfigDependencies = ''Dependencies''"
| "node_name NodeConfigNestedDependencies = ''Dependencies''"
| "node_name NodeConfigInstallStep = ''Install Step''"
| "node_name NodeConfigVisible = ''Visibility''"
| "node_name NodeConfigOptGroups = ''Option Group''"
| "node_name NodeConfigGroup = ''Group''"
| "node_name NodeConfigPlugins = ''Plugins''"
| "node_name NodeConfigPlugin = ''Plugin''"
| "node_name NodeConfigPluginDescription = ''Description''"
| "node_name NodeConfigImage = ''Image''"
| "node_name NodeConfigConditionFlags = ''Flags''"
| "node_name NodeConfigTypeDesc = ''Type Descriptor''"
| "node_name NodeConfigFlag = ''Flag''"
| "node_name NodeConfigDependencyType = ''Dependency Type''"
| "node_name NodeConfigDefaultType = ''Default Type''"
| "node_name NodeConfigType = ''Type''"
| "node_name NodeConfigInstallPatterns = ''Patterns''"
| "node_name NodeConfigInstallPattern = ''Pattern''"

primrec allowed_instances :: "node_class \<Rightarrow> nat" where
  "allowed_instances NodeComment = 0"
| "allowed_instances NodeInfoRoot = 1"
| "allowed_instances NodeInfoName = 1"
| "allowed_instances NodeInfoAuthor = 1"
| "allowed_instances NodeInfoVersion = 1"
| "allowed_instances NodeInfoID = 1"
| "allowed_instances NodeInfoWebsite = 1"
| "allowed_instances NodeInfoDescription = 1"
| "allowed_instances NodeInfoGroup = 1"
| "allowed_instances NodeInfoElement = 0"
| "allowed_instances NodeConfigRoot = 1"
| "allowed_instances NodeConfigModName = 1"
| "allowed_instances NodeConfigModImage = 1"
| "allowed_instances NodeConfigModDepend = 1"
| "allowed_instances NodeConfigReqFiles = 1"
| "allowed_instances NodeConfigInstallSteps = 1"
| "allowed_instances NodeConfigCondInstall = 1"
| "allowed_instances NodeConfigDependFile = 0"
| "allowed_instances NodeConfigDependFlag = 0"
| "allowed_instances NodeConfigDependGame = 1"
| "allowed_instances NodeConfigFile = 0"
| "allowed_instances NodeConfigFolder = 0"
| "allowed_instances NodeConfigPatterns = 1"
| "allowed_instances NodeConfigPattern = 0"
| "allowed_instances NodeConfigFiles = 1"
| "allowed_instances NodeConfigDependencies = 1"
| "allowed_instances NodeConfigNestedDependencies = 0"
| "allowed_instances NodeConfigInstallStep = 0"
| "allowed_instances NodeConfigVisible = 1"
| "allowed_instances NodeConfigOptGroups = 1"
| "allowed_instances NodeConfigGroup = 0"
| "allowed_instances NodeConfigPlugins = 1"
| "allowed_instances NodeConfigPlugin = 0"
| "allowed_instances NodeConfigPluginDescription = 1"
| "allowed_instances NodeConfigImage = 1"
| "allowed_instances NodeConfigConditionFlags = 1"
| "allowed_instances NodeConfigTypeDesc = 1"
| "allowed_instances NodeConfigFlag = 0"
| "allowed_instances NodeConfigDependencyType = 1"
| "allowed_instances NodeConfigDefaultType = 1"
| "allowed_instances NodeConfigType = 1"
| "allowed_instances NodeConfigInstallPatterns = 1"
| "allowed_instances NodeConfigInstallPattern = 0"

primrec sort_order :: "node_class \<Rightarrow> string" where
  "sort_order NodeComment = ''0''"
| "sort_order NodeInfoRoot = ''0''"
| "sort_order NodeInfoName = ''0''"
| "sort_order NodeInfoAuthor = ''0''"
| "sort_order NodeInfoVersion = ''0''"
| "sort_order NodeInfoID = ''0''"
| "sort_order NodeInfoWebsite = ''0''"
| "sort_order NodeInfoDescription = ''0''"
| "sort_order NodeInfoGroup = ''0''"
| "sort_order NodeInfoElement = ''0''"
| "sort_order NodeConfigRoot = ''0''"
| "sort_order NodeConfigModName = ''1''"
| "sort_order NodeConfigModImage = ''2''"
| "sort_order NodeConfigModDepend = ''3''"
| "sort_order NodeConfigReqFiles = ''4''"
| "sort_order NodeConfigInstallSteps = ''5''"
| "sort_order NodeConfigCondInstall = ''6''"
| "sort_order NodeConfigDependFile = ''0''"
| "sort_order NodeConfigDependFlag = ''0''"
| "sort_order NodeConfigDependGame = ''0''"
| "sort_order NodeConfigFile = ''0''"
| "sort_order NodeConfigFolder = ''0''"
| "sort_order NodeConfigPatterns = ''0''"
| "sort_order NodeConfigPattern = ''0''"
| "sort_order NodeConfigFiles = ''3''"
| "sort_order NodeConfigDependencies = ''1''"
| "sort_order NodeConfigNestedDependencies = ''0''"
| "sort_order NodeConfigInstallStep = ''0''"
| "sort_order NodeConfigVisible = ''1''"
| "sort_order NodeConfigOptGroups = ''2''"
| "sort_order NodeConfigGroup = ''0''"
| "sort_order NodeConfigPlugins = ''0''"
| "sort_order NodeConfigPlugin = ''0''"
| "sort_order NodeConfigPluginDescription = ''1''"
| "sort_order NodeConfigImage = ''2''"
| "sort_order NodeConfigConditionFlags = ''3''"
| "sort_order NodeConfigTypeDesc = ''4''"
| "sort_order NodeConfigFlag = ''0''"
| "sort_order NodeConfigDependencyType = ''0''"
| "sort_order NodeConfigDefaultType = ''1''"
| "sort_order NodeConfigType = ''2''"
| "sort_order NodeConfigInstallPatterns = ''2''"
| "sort_order NodeConfigInstallPattern = ''0''"

primrec allowed_children :: "node_class \<Rightarrow> node_class list" where
  "allowed_children NodeComment = []"
| "allowed_children NodeInfoRoot = [NodeInfoName, NodeInfoAuthor, NodeInfoDescription, NodeInfoID, NodeInfoGroup, NodeInfoVersion, NodeInfoWebsite]"
| "allowed_children NodeInfoName = []"
| "allowed_children NodeInfoAuthor = []"
| "allowed_children NodeInfoVersion = []"
| "allowed_children NodeInfoID = []"
| "allowed_children NodeInfoWebsite = []"
| "allowed_children NodeInfoDescription = []"
| "allowed_children NodeInfoGroup = [NodeInfoElement]"
| "allowed_children NodeInfoElement = []"
| "allowed_children NodeConfigRoot = [NodeConfigModName, NodeConfigModImage, NodeConfigModDepend, NodeConfigInstallSteps, NodeConfigReqFiles, NodeConfigCondInstall]"
| "allowed_children NodeConfigModName = []"
| "allowed_children NodeConfigModImage = []"
| "allowed_children NodeConfigModDepend = [NodeConfigDependFile, NodeConfigDependFlag, NodeConfigDependGame, NodeConfigNestedDependencies]"
| "allowed_children NodeConfigReqFiles = [NodeConfigFile, NodeConfigFolder]"
| "allowed_children NodeConfigInstallSteps = [NodeConfigInstallStep]"
| "allowed_children NodeConfigCondInstall = [NodeConfigPatterns]"
| "allowed_children NodeConfigDependFile = []"
| "allowed_children NodeConfigDependFlag = []"
| "allowed_children NodeConfigDependGame = []"
| "allowed_children NodeConfigFile = []"
| "allowed_children NodeConfigFolder = []"
| "allowed_children NodeConfigPatterns = [NodeConfigPattern]"
| "allowed_children NodeConfigPattern = [NodeConfigFiles, NodeConfigDependencies]"
| "allowed_children NodeConfigFiles = [NodeConfigFile, NodeConfigFolder]"
| "allowed_children NodeConfigDependencies = [NodeConfigDependFile, NodeConfigDependFlag, NodeConfigDependGame, NodeConfigNestedDependencies]"
| "allowed_children NodeConfigNestedDependencies = [NodeConfigDependFile, NodeConfigDependFlag, NodeConfigDependGame, NodeConfigNestedDependencies]"
| "allowed_children NodeConfigInstallStep = [NodeConfigVisible, NodeConfigOptGroups]"
| "allowed_children NodeConfigVisible = [NodeConfigDependFile, NodeConfigDependFlag, NodeConfigDependGame, NodeConfigNestedDependencies]"
| "allowed_children NodeConfigOptGroups = [NodeConfigGroup]"
| "allowed_children NodeConfigGroup = [NodeConfigPlugins]"
| "allowed_children NodeConfigPlugins = [NodeConfigPlugin]"
| "allowed_children NodeConfigPlugin = [NodeConfigPluginDescription, NodeConfigImage, NodeConfigFiles, NodeConfigConditionFlags, NodeConfigTypeDesc]"
| "allowed_children NodeConfigPluginDescription = []"
| "allowed_children NodeConfigImage = []"
| "allowed_children NodeConfigConditionFlags = [NodeConfigFlag]"
| "allowed_children NodeConfigTypeDesc = [NodeConfigDependencyType, NodeConfigType]"
| "allowed_children NodeConfigFlag = []"
| "allowed_children NodeConfigDependencyType = [NodeConfigInstallPatterns, NodeConfigDefaultType]"
| "allowed_children NodeConfigDefaultType = []"
| "allowed_children NodeConfigType = []"
| "allowed_children NodeConfigInstallPatterns = [NodeConfigInstallPattern]"
| "allowed_children NodeConfigInstallPattern = [NodeConfigType, NodeConfigDependencies]"

primrec property_keys :: "node_class \<Rightarrow> string list" where
  "property_keys NodeComment = [''<node_text>'']"
| "property_keys NodeInfoRoot = []"
| "property_keys NodeInfoName = [''<node_text>'']"
| "property_keys NodeInfoAuthor = [''<node_text>'']"
| "property_keys NodeInfoVersion = [''<node_text>'']"
| "property_keys NodeInfoID = [''<node_text>'']"
| "property_keys NodeInfoWebsite = [''<node_text>'']"
| "property_keys NodeInfoDescription = [''<node_text>'']"
| "property_keys NodeInfoGroup = []"
| "property_keys NodeInfoElement = [''<node_text>'']"
| "property_keys NodeConfigRoot = [''{http://www.w3.org/2001/XMLSchema-instance}noNamespaceSchemaLocation'']"
| "property_keys NodeConfigModName = [''<node_text>'', ''position'', ''colour'']"
| "property_keys NodeConfigModImage = [''path'', ''showImage'', ''showFade'', ''height'']"
| "property_keys NodeConfigModDepend = [''operator'']"
| "property_keys NodeConfigReqFiles = []"
| "property_keys NodeConfigInstallSteps = [''order'']"
| "property_keys NodeConfigCondInstall = []"
| "property_keys NodeConfigDependFile = [''file'', ''state'']"
| "property_keys NodeConfigDependFlag = [''flag'', ''value'']"
| "property_keys NodeConfigDependGame = [''version'']"
| "property_keys NodeConfigFile = [''source'', ''destination'', ''priority'', ''alwaysInstall'', ''installIfUsable'']"
| "property_keys NodeConfigFolder = [''source'', ''destination'', ''priority'', ''alwaysInstall'', ''installIfUsable'']"
| "property_keys NodeConfigPatterns = []"
| "property_keys NodeConfigPattern = []"
| "property_keys NodeConfigFiles = []"
| "property_keys NodeConfigDependencies = [''operator'']"
| "property_keys NodeConfigNestedDependencies = [''operator'']"
| "property_keys NodeConfigInstallStep = [''name'']"
| "property_keys NodeConfigVisible = [''operator'']"
| "property_keys NodeConfigOptGroups = [''order'']"
| "property_keys NodeConfigGroup = [''name'', ''type'']"
| "property_keys NodeConfigPlugins = [''order'']"
| "property_keys NodeConfigPlugin = [''name'']"
| "property_keys NodeConfigPluginDescription = [''<node_text>'']"
| "property_keys NodeConfigImage = [''path'']"
| "property_keys NodeConfigConditionFlags = []"
| "property_keys NodeConfigTypeDesc = []"
| "property_keys NodeConfigFlag = [''name'', ''<node_text>'']"
| "property_keys NodeConfigDependencyType = []"
| "property_keys NodeConfigDefaultType = [''name'']"
| "property_keys NodeConfigType = [''name'']"
| "property_keys NodeConfigInstallPatterns = []"
| "property_keys NodeConfigInstallPattern = []"

section \<open>Python strings\<close>

definition startswith :: "string \<Rightarrow> string \<Rightarrow> bool" where
  "startswith s p = prefix p s"

text \<open>
  \<^verbatim>\<open>str.isspace\<close> on the characters below 256 (a \<^typ>\<open>char\<close> is a byte), and
  \<^verbatim>\<open>s.split(maxsplit=1)\<close>: leading whitespace is dropped, the first word ends at the next
  whitespace, and what follows that whitespace, if anything, is the second element.
\<close>

definition isspace :: "char \<Rightarrow> bool" where
  "isspace c = ((of_char c :: nat) \<in> set [9, 10, 11, 12, 13, 28, 29, 30, 31, 32, 133, 160])"

definition split_maxsplit1 :: "string \<Rightarrow> string list" where
  "split_maxsplit1 s =
     (let s1 = dropWhile isspace s in
      if s1 = [] then []
      else
        let w = takeWhile (\<lambda>c. \<not> isspace c) s1;
            r = dropWhile isspace (dropWhile (\<lambda>c. \<not> isspace c) s1)
        in if r = [] then [w] else [w, r])"

text \<open>\<^verbatim>\<open>s.zfill(width)\<close>: zeros on the left, after a leading sign.\<close>

definition zfill :: "nat \<Rightarrow> string \<Rightarrow> string" where
  "zfill width s =
     (if width \<le> length s then s
      else if s \<noteq> [] \<and> (hd s = CHR ''+'' \<or> hd s = CHR ''-'')
        then hd s # replicate (width - length s) CHR ''0'' @ tl s
      else replicate (width - length s) CHR ''0'' @ s)"

definition sentinel :: string where
  "sentinel = ''<designer.metadata.do.not.edit>''"

section \<open>Exceptions and results\<close>

text \<open>The exceptions the methods raise.\<close>

datatype error = AttributeError | ValueError | IndexError | JSONDecodeError | OtherError string

section \<open>Nodes and the object store\<close>

text \<open>
  The metadata mapping: the three keys the designer writes (\<^verbatim>\<open>name\<close>, \<^verbatim>\<open>user_sort\<close>,
  \<^verbatim>\<open>hidden_nodes\<close>), each present or absent, and whatever other keys a decoded payload
  held. The mapping is empty (falsy in Python) when it has no key at all.
\<close>

record metadata =
  md_name :: "string option"
  md_user_sort :: "string option"
  md_hidden_nodes :: "string list option"
  md_other :: "(string \<times> string) list"

definition md_empty :: "metadata \<Rightarrow> bool" where
  "md_empty md = (md_name md = None \<and> md_user_sort md = None \<and> md_hidden_nodes md = None
     \<and> md_other md = [])"

definition empty_metadata :: metadata where
  "empty_metadata = \<lparr>md_name = None, md_user_sort = None, md_hidden_nodes = None, md_other = []\<rparr>"

text \<open>
  A node object. \<open>parent\<close> and \<open>children\<close> are the links of the lxml tree
  (\<^verbatim>\<open>getparent()\<close>, \<^verbatim>\<open>list(self)\<close>, comments included); \<open>node_text\<close> is \<^verbatim>\<open>.text\<close>
  (\<^verbatim>\<open>None\<close> is the empty string here); \<open>properties key\<close> is \<^verbatim>\<open>properties[key].value\<close>
  written as a string; \<open>item_text\<close> is \<^verbatim>\<open>model_item.text()\<close>. Nodes are referred to by
  identity, so \<^verbatim>\<open>hidden_children\<close> is a list of node identifiers.

  lxml keeps every node in a libxml2 document. \<open>doc\<close> is the document the node belongs
  to, named by the node it was made for (a constructor makes a new document for the node
  it returns); \<open>top\<close> says that the node hangs directly below that document, as its root
  element or as a comment beside it. A node with \<open>parent = None\<close> and not \<open>top\<close> has been
  unlinked: it still belongs to its document and is not part of the document's tree.
\<close>

type_synonym nid = nat

record pynode =
  cls :: node_class
  parent :: "nid option"
  children :: "nid list"
  node_text :: string
  attrib :: "(string \<times> string) list"
  properties :: "string \<Rightarrow> string"
  item_text :: string
  user_sort_order :: string
  metadata :: metadata
  hidden_children :: "nid list"
  is_hidden :: bool
  doc :: nid
  top :: bool

text \<open>The store: the node objects that exist, and the attributes of each.\<close>

record state =
  nodes :: "nid list"
  objs :: "nid \<Rightarrow> pynode"

text \<open>
  A method returns, raises, or (in the model only) runs out of the depth it was given:
  \<^verbatim>\<open>add_child\<close> calls \<^verbatim>\<open>load_metadata\<close> on the child, which calls \<^verbatim>\<open>add_child\<close> for every
  hidden node it rebuilds from a string, to any depth. An exception leaves the objects
  as the statements before it have made them: \<open>Raise\<close> carries the store at the moment of
  the exception.
\<close>

datatype 'a outcome = Return 'a | Raise error state | OutOfFuel

fun and_then :: "'a outcome \<Rightarrow> ('a \<Rightarrow> 'b outcome) \<Rightarrow> 'b outcome" where
  "and_then (Return x) f = f x"
| "and_then (Raise err st) f = Raise err st"
| "and_then OutOfFuel f = OutOfFuel"

text \<open>
  What the methods use of jsonpickle, lxml, \<^verbatim>\<open>os\<close> and \<^verbatim>\<open>.io\<close>:
  \<^verbatim>\<open>encode(self.metadata)\<close>; \<^verbatim>\<open>decode(payload)\<close>, which returns a mapping or raises;
  \<^verbatim>\<open>etree.tostring(element, pretty_print=False, encoding="unicode")\<close>;
  \<^verbatim>\<open>copy_node(etree.fromstring(node_string), self)\<close>, which creates nodes or raises; and
  \<^verbatim>\<open>os.sep\<close>.
\<close>

record env =
  encode :: "metadata \<Rightarrow> string"
  decode :: "string \<Rightarrow> error + metadata"
  tostring :: "state \<Rightarrow> nid \<Rightarrow> string"
  copy_node_fromstring :: "string \<Rightarrow> nid \<Rightarrow> state \<Rightarrow> (nid \<times> state) outcome"
  sep :: char

definition upd :: "state \<Rightarrow> nid \<Rightarrow> (pynode \<Rightarrow> pynode) \<Rightarrow> state" where
  "upd st i f = st\<lparr>objs := (objs st)(i := f (objs st i))\<rparr>"

text \<open>
  \<^verbatim>\<open>_NodeElement.init\<close> (lines 85 to 128) and \<^verbatim>\<open>NodeComment._init\<close> (lines 37 to 50): the
  attributes of a node that was just made, at the top of a document of its own (the one
  who makes the node gives \<open>doc\<close> the node's identifier).
\<close>

definition init :: "node_class \<Rightarrow> pynode" where
  "init c =
     \<lparr>cls = c, parent = None, children = [], node_text = [], attrib = [],
      properties = (\<lambda>key. []), item_text = node_name c,
      user_sort_order = zfill 7 ''0'', metadata = empty_metadata, hidden_children = [],
      is_hidden = False, doc = 0, top = True\<rparr>"

text \<open>\<^verbatim>\<open>NodeComment()\<close>: a new object, with an identifier no existing node has.\<close>

definition fresh_id :: "state \<Rightarrow> nid" where
  "fresh_id st = Suc (fold max (nodes st) 0)"

definition new_comment :: "state \<Rightarrow> nid \<times> state" where
  "new_comment st =
     (let c = fresh_id st
      in (c, st\<lparr>nodes := nodes st @ [c],
                objs := (objs st)(c := (init NodeComment)\<lparr>doc := c\<rparr>)\<rparr>))"

text \<open>
  Modelled from the spec: the Property Store (\<^verbatim>\<open>props.py\<close> is not among the sources).
  A text property holds one string; \<^verbatim>\<open>set_value\<close> stores the raw string and \<^verbatim>\<open>value\<close>
  gives it back.
\<close>

definition set_value :: "state \<Rightarrow> nid \<Rightarrow> string \<Rightarrow> string \<Rightarrow> state" where
  "set_value st i key v = upd st i (\<lambda>n. n\<lparr>properties := (properties n)(key := v)\<rparr>)"

section \<open>The lxml tree\<close>

text \<open>
  The chain \<^verbatim>\<open>getparent()\<close> gives from a node upwards. A tree of \<open>k\<close> nodes has no longer
  chain than \<open>k\<close>, so following the links for as many steps as there are nodes reaches the
  root.
\<close>

fun ancestors_upto :: "nat \<Rightarrow> state \<Rightarrow> nid \<Rightarrow> nid list" where
  "ancestors_upto 0 st i = [i]"
| "ancestors_upto (Suc k) st i =
     i # (case parent (objs st i) of None \<Rightarrow> [] | Some p \<Rightarrow> ancestors_upto k st p)"

definition ancestors_or_self :: "state \<Rightarrow> nid \<Rightarrow> nid list" where
  "ancestors_or_self st i = ancestors_upto (length (nodes st)) st i"

definition root_of :: "state \<Rightarrow> nid \<Rightarrow> nid" where
  "root_of st i = last (ancestors_or_self st i)"

text \<open>
  \<^verbatim>\<open>xmlUnlinkNode\<close>: the node leaves the child list of its parent, or the top of its
  document, and stays in the document it was in.
\<close>

definition unlink :: "state \<Rightarrow> nid \<Rightarrow> state" where
  "unlink st c =
     (case parent (objs st c) of
        None \<Rightarrow> upd st c (\<lambda>n. n\<lparr>top := False\<rparr>)
      | Some q \<Rightarrow> upd (upd st q (\<lambda>n. n\<lparr>children := remove1 c (children n)\<rparr>))
                      c (\<lambda>n. n\<lparr>parent := None, top := False\<rparr>))"

text \<open>The node \<open>c\<close> and every node of the store below it are given the document \<open>d\<close>.\<close>

definition set_tree_doc :: "state \<Rightarrow> nid \<Rightarrow> nid \<Rightarrow> state" where
  "set_tree_doc st c d =
     st\<lparr>objs := (\<lambda>i. if i \<in> set (nodes st) \<and> c \<in> set (ancestors_or_self st i)
                      then (objs st i)\<lparr>doc := d\<rparr> else objs st i)\<rparr>"

text \<open>
  \<^verbatim>\<open>self.append(child)\<close> moves the child: it is unlinked, becomes the last child of
  \<open>self\<close>, and enters the document of \<open>self\<close> with all the nodes below it; lxml refuses to
  append a node to itself or to one of its descendants. \<^verbatim>\<open>self.remove(child)\<close> raises
  unless \<open>child\<close> is a child of \<open>self\<close>; the child it unlinks stays in the document of
  \<open>self\<close>.
\<close>

definition lxml_append :: "state \<Rightarrow> nid \<Rightarrow> nid \<Rightarrow> state outcome" where
  "lxml_append st self child =
     (if child \<in> set (ancestors_or_self st self) then Raise ValueError st
      else Return
             (set_tree_doc
                (upd (upd (unlink st child) self (\<lambda>n. n\<lparr>children := children n @ [child]\<rparr>))
                     child (\<lambda>n. n\<lparr>parent := Some self\<rparr>))
                child (doc (objs st self))))"

definition lxml_remove :: "state \<Rightarrow> nid \<Rightarrow> nid \<Rightarrow> state outcome" where
  "lxml_remove st self child =
     (if parent (objs st child) = Some self then Return (unlink st child)
      else Raise ValueError st)"

section \<open>The tree mutation engine\<close>

text \<open>
  \<^verbatim>\<open>_NodeElement.can_add_child\<close> (lines 130 to 146): the loop counts the children of the
  candidate's exact class.
\<close>

definition can_add_child_base :: "state \<Rightarrow> nid \<Rightarrow> nid \<Rightarrow> bool" where
  "can_add_child_base st self child =
     (if allowed_instances (cls (objs st child)) \<noteq> 0
         \<and> allowed_instances (cls (objs st child))
             \<le> length (filter (\<lambda>item. cls (objs st item) = cls (objs st child))
                          (children (objs st self)))
      then False
      else if cls (objs st child) \<in> set (allowed_children (cls (objs st self)))
              \<or> cls (objs st child) = NodeComment
      then True
      else False)"

text \<open>
  \<^verbatim>\<open>self.can_add_child(child)\<close>: a comment has no such method (\<^verbatim>\<open>AttributeError\<close>);
  \<^verbatim>\<open>NodeConfigTypeDesc\<close> overrides the method (lines 1231 to 1235) and also asks for
  \<^verbatim>\<open>len(self) < 1\<close>, where \<^verbatim>\<open>len\<close> counts the comments among the children too. The method
  only reads the store.
\<close>

definition can_add_child :: "state \<Rightarrow> nid \<Rightarrow> nid \<Rightarrow> bool outcome" where
  "can_add_child st self child =
     (if cls (objs st self) = NodeComment then Raise AttributeError st
      else if cls (objs st self) = NodeConfigTypeDesc
      then (if can_add_child_base st self child
            then (if length (children (objs st self)) < 1 then Return True else Return False)
            else Return False)
      else Return (can_add_child_base st self child))"

text \<open>
  \<^verbatim>\<open>remove_child\<close> (lines 160 to 168); \<^verbatim>\<open>child in self\<close> holds when the child's parent is
  \<open>self\<close>.
\<close>

definition remove_child :: "state \<Rightarrow> nid \<Rightarrow> nid \<Rightarrow> state outcome" where
  "remove_child st self child =
     (if cls (objs st self) = NodeComment then Raise AttributeError st
      else if parent (objs st child) = Some self then lxml_remove st self child
      else Return st)"

section \<open>The sort engine\<close>

text \<open>The key of \<^verbatim>\<open>sorted\<close> (line 184): \<^verbatim>\<open>x.sort_order + "." + x.user_sort_order\<close>.\<close>

definition node_sort_key :: "state \<Rightarrow> nid \<Rightarrow> string" where
  "node_sort_key st x = sort_order (cls (objs st x)) @ ''.'' @ user_sort_order (objs st x)"

text \<open>
  The tree of the document of \<open>self\<close>: the nodes whose topmost ancestor hangs at the top
  of the libxml2 document \<open>self\<close> belongs to. A node that was unlinked, and the nodes
  below it, are not in the tree of any document.
\<close>

definition in_document :: "state \<Rightarrow> nid \<Rightarrow> nid \<Rightarrow> bool" where
  "in_document st self i =
     (top (objs st (root_of st i)) \<and> doc (objs st (root_of st i)) = doc (objs st self))"

text \<open>
  \<^verbatim>\<open>self.xpath('//*[./*]')\<close>: the path starts with \<^verbatim>\<open>//\<close>, so lxml evaluates it from the
  libxml2 document \<open>self\<close> belongs to, and it selects every element of that document's
  tree that has an element child (\<^verbatim>\<open>*\<close> matches no comment). The model lists them in the
  order of the store; each step of the loop assigns the child list of its own node only,
  so the order does not show in the result.
\<close>

definition xpath_parents :: "state \<Rightarrow> nid \<Rightarrow> nid list" where
  "xpath_parents st self =
     filter (\<lambda>i. in_document st self i
                 \<and> cls (objs st i) \<noteq> NodeComment
                 \<and> (\<exists>c \<in> set (children (objs st i)). cls (objs st c) \<noteq> NodeComment))
            (nodes st)"

text \<open>\<^verbatim>\<open>parent[:] = sorted(parent, key=...)\<close>; \<^verbatim>\<open>sorted\<close> is stable, as \<^const>\<open>sort_key\<close> is.\<close>

definition sort_children :: "state \<Rightarrow> nid \<Rightarrow> state" where
  "sort_children st p =
     upd st p (\<lambda>n. n\<lparr>children := sort_key (node_sort_key st) (children n)\<rparr>)"

text \<open>\<^verbatim>\<open>sort\<close> (lines 180 to 185); \<^verbatim>\<open>NodeComment.sort\<close> does nothing.\<close>

definition sort_tree :: "state \<Rightarrow> nid \<Rightarrow> state" where
  "sort_tree st self =
     (if cls (objs st self) = NodeComment then st
      else fold (\<lambda>p s. sort_children s p) (xpath_parents st self) st)"

section \<open>The metadata codec\<close>

text \<open>
  \<^verbatim>\<open>update_item_name\<close>: the base method returns \<^verbatim>\<open>self.name\<close>; the file and folder nodes
  return the last component of their \<^verbatim>\<open>source\<close>, six other classes their \<^verbatim>\<open>name\<close>
  property, each falling back to \<^verbatim>\<open>self.name\<close> when the property is empty.
\<close>

definition last_component :: "char \<Rightarrow> string \<Rightarrow> string" where
  "last_component s p = rev (takeWhile (\<lambda>c. c \<noteq> s) (rev p))"

definition update_item_name :: "env \<Rightarrow> pynode \<Rightarrow> string" where
  "update_item_name e n =
     (if cls n \<in> {NodeConfigFile, NodeConfigFolder}
      then (if properties n ''source'' = [] then node_name (cls n)
            else last_component (sep e) (properties n ''source''))
      else if cls n \<in> {NodeConfigInstallStep, NodeConfigGroup, NodeConfigPlugin, NodeConfigFlag,
                        NodeConfigDefaultType, NodeConfigType}
      then (if properties n ''name'' = [] then node_name (cls n) else properties n ''name'')
      else node_name (cls n))"

text \<open>
  The loop of \<^verbatim>\<open>load_metadata\<close> (lines 225 to 231): every comment child whose text starts
  with the sentinel has \<^verbatim>\<open>child.text.split(maxsplit=1)[1]\<close> decoded and assigned to
  \<^verbatim>\<open>self.metadata\<close>. Only a \<^verbatim>\<open>JSONDecodeError\<close> is caught; the index raises \<^verbatim>\<open>IndexError\<close>
  when the split has no second element. The result is the exception that ended the loop,
  if any, and the mapping assigned last.
\<close>

fun scan_metadata :: "env \<Rightarrow> state \<Rightarrow> nid list \<Rightarrow> metadata \<Rightarrow> error option \<times> metadata" where
  "scan_metadata e st [] md = (None, md)"
| "scan_metadata e st (child # rest) md =
     (if cls (objs st child) = NodeComment
      then (if startswith (node_text (objs st child)) sentinel
            then (case split_maxsplit1 (node_text (objs st child)) of
                    _ # payload # _ \<Rightarrow>
                      (case decode e payload of
                         Inr m \<Rightarrow> scan_metadata e st rest m
                       | Inl JSONDecodeError \<Rightarrow> scan_metadata e st rest md
                       | Inl err \<Rightarrow> (Some err, md))
                  | _ \<Rightarrow> (Some IndexError, md))
            else scan_metadata e st rest md)
      else scan_metadata e st rest md)"

text \<open>
  The first part of \<^verbatim>\<open>save_metadata\<close> (lines 249 to 267): the mapping recomputed from
  the label, the rank and the hidden children.
\<close>

definition recompute_metadata :: "env \<Rightarrow> state \<Rightarrow> nid \<Rightarrow> metadata" where
  "recompute_metadata e st self =
     (let me = objs st self;
          md1 = (if item_text me \<noteq> node_name (cls me)
                 then (metadata me)\<lparr>md_name := Some (item_text me)\<rparr>
                 else (metadata me)\<lparr>md_name := None\<rparr>);
          md2 = (if user_sort_order me \<noteq> [] \<and> user_sort_order me \<noteq> zfill 7 ''0''
                 then md1\<lparr>md_user_sort := Some (zfill 7 (user_sort_order me))\<rparr>
                 else md1\<lparr>md_user_sort := None\<rparr>)
      in (if hidden_children me \<noteq> []
          then md2\<lparr>md_hidden_nodes :=
                 Some (map (\<lambda>element. escape_snapshot (tostring e st element))
                        (hidden_children me))\<rparr>
          else md2\<lparr>md_hidden_nodes := None\<rparr>))"

text \<open>
  The loop of \<^verbatim>\<open>save_metadata\<close> over the children (lines 274 to 281). lxml's iterator
  has fetched the next sibling before the body runs, so removing the current child does
  not disturb the iteration: the loop visits the children the node had at its start.
\<close>

fun update_meta_comments ::
  "env \<Rightarrow> nid \<Rightarrow> metadata \<Rightarrow> nid list \<Rightarrow> state \<times> nid option \<Rightarrow> (state \<times> nid option) outcome" where
  "update_meta_comments e self md [] acc = Return acc"
| "update_meta_comments e self md (child # rest) (st, meta_comment) =
     (if cls (objs st child) = NodeComment
      then (if startswith (node_text (objs st child)) sentinel
            then (if \<not> md_empty md
                  then update_meta_comments e self md rest
                         (upd st child (\<lambda>n. n\<lparr>node_text := sentinel @ '' '' @ encode e md\<rparr>),
                          Some child)
                  else and_then (lxml_remove st self child)
                         (\<lambda>st'. update_meta_comments e self md rest (st', Some child)))
            else update_meta_comments e self md rest (st, meta_comment))
      else update_meta_comments e self md rest (st, meta_comment))"

text \<open>
  The methods that call each other: \<^verbatim>\<open>add_child\<close> (lines 148 to 158), \<^verbatim>\<open>write_attribs\<close>
  (lines 59 to 64 for a comment, 200 to 211 for an element), \<^verbatim>\<open>load_metadata\<close> (lines 221
  to 243, with its loop over the hidden nodes as \<open>load_hidden_nodes\<close>), \<^verbatim>\<open>set_hidden\<close>
  (lines 170 to 178) and \<^verbatim>\<open>save_metadata\<close> (lines 245 to 286). The first argument bounds
  the depth of nested \<^verbatim>\<open>add_child\<close> calls. A comment has no \<^verbatim>\<open>add_child\<close>,
  \<^verbatim>\<open>set_hidden\<close> or \<^verbatim>\<open>hidden_children\<close> (\<^verbatim>\<open>AttributeError\<close>), and its \<^verbatim>\<open>load_metadata\<close>
  and \<^verbatim>\<open>save_metadata\<close> do nothing; \<^verbatim>\<open>getparent()\<close> of a root is \<^verbatim>\<open>None\<close>, which has no
  attribute either. The calls on \<^verbatim>\<open>model_item\<close> other than its text are the view's.
  \<^verbatim>\<open>set_hidden\<close> assigns \<^verbatim>\<open>self.is_hidden\<close> (line 171) before it asks for the parent, and
  \<^verbatim>\<open>write_attribs\<close> writes before it does: the store they raise with has these
  assignments.
\<close>

function (sequential)
    add_child :: "nat \<Rightarrow> env \<Rightarrow> state \<Rightarrow> nid \<Rightarrow> nid \<Rightarrow> state outcome"
and write_attribs :: "nat \<Rightarrow> env \<Rightarrow> state \<Rightarrow> nid \<Rightarrow> state outcome"
and load_metadata :: "nat \<Rightarrow> env \<Rightarrow> state \<Rightarrow> nid \<Rightarrow> state outcome"
and load_hidden_nodes :: "nat \<Rightarrow> env \<Rightarrow> state \<Rightarrow> nid \<Rightarrow> string list \<Rightarrow> state outcome"
and set_hidden :: "nat \<Rightarrow> env \<Rightarrow> state \<Rightarrow> nid \<Rightarrow> bool \<Rightarrow> state outcome"
and save_metadata :: "nat \<Rightarrow> env \<Rightarrow> state \<Rightarrow> nid \<Rightarrow> state outcome"
where
  "add_child 0 e st self child =
     (if cls (objs st self) = NodeComment then Raise AttributeError st
      else and_then (can_add_child st self child)
             (\<lambda>ok. if ok then OutOfFuel else Return st))"
| "add_child (Suc n) e st self child =
     (if cls (objs st self) = NodeComment then Raise AttributeError st
      else and_then (can_add_child st self child)
             (\<lambda>ok. if ok
                   then and_then (lxml_append st self child)
                          (\<lambda>st1. and_then (write_attribs n e st1 child)
                            (\<lambda>st2. load_metadata n e st2 child))
                   else Return st))"
| "write_attribs n e st self =
     (if cls (objs st self) = NodeComment
      then (let st1 = upd st self (\<lambda>me. me\<lparr>node_text := properties me ''<node_text>''\<rparr>)
            in if startswith (node_text (objs st1 self)) sentinel
               then (case parent (objs st1 self) of
                       None \<Rightarrow> Raise AttributeError st1
                     | Some p \<Rightarrow> Return st1)
               else Return st1)
      else (let st1 = upd st self (\<lambda>me. me\<lparr>
                        attrib := map (\<lambda>key. (key, properties me key))
                                    (filter (\<lambda>key. key \<noteq> ''<node_text>'') (property_keys (cls me))),
                        node_text := (if ''<node_text>'' \<in> set (property_keys (cls me))
                                      then properties me ''<node_text>'' else node_text me)\<rparr>)
            in if is_hidden (objs st1 self)
               then (case parent (objs st1 self) of
                       None \<Rightarrow> Raise AttributeError st1
                     | Some p \<Rightarrow> save_metadata n e st1 p)
               else Return st1))"
| "load_metadata n e st self =
     (if cls (objs st self) = NodeComment then Return st
      else (case scan_metadata e st (children (objs st self)) (metadata (objs st self)) of
              (Some err, md) \<Rightarrow> Raise err (upd st self (\<lambda>me. me\<lparr>metadata := md\<rparr>))
            | (None, md) \<Rightarrow>
                (let st1 = upd st self (\<lambda>me. me\<lparr>
                             metadata := md,
                             item_text := (case md_name md of
                                             Some v \<Rightarrow> v | None \<Rightarrow> update_item_name e me),
                             user_sort_order := (case md_user_sort md of
                                                   Some v \<Rightarrow> v | None \<Rightarrow> zfill 7 ''0'')\<rparr>)
                 in if hidden_children (objs st1 self) = []
                    then load_hidden_nodes n e st1 self
                           (case md_hidden_nodes md of Some l \<Rightarrow> l | None \<Rightarrow> [])
                    else Return st1)))"
| "load_hidden_nodes n e st self [] = Return st"
| "load_hidden_nodes n e st self (node_string # rest) =
     and_then (copy_node_fromstring e (unescape_snapshot node_string) self st)
       (\<lambda>(node, st1).
          and_then (if cls (objs st1 node) \<noteq> NodeComment then add_child n e st1 self node
                    else lxml_append st1 self node)
            (\<lambda>st2. and_then (set_hidden n e st2 node True)
              (\<lambda>st3. load_hidden_nodes n e (sort_tree st3 self) self rest)))"
| "set_hidden n e st self hide =
     (if cls (objs st self) = NodeComment then Raise AttributeError st
      else (let st1 = upd st self (\<lambda>me. me\<lparr>is_hidden := hide\<rparr>)
            in case parent (objs st1 self) of
                 None \<Rightarrow> Raise AttributeError st1
               | Some p \<Rightarrow>
                   (if cls (objs st1 p) = NodeComment then Raise AttributeError st1
                    else if hide
                    then save_metadata n e
                           (upd st1 p (\<lambda>pn. pn\<lparr>hidden_children := hidden_children pn @ [self]\<rparr>)) p
                    else if self \<in> set (hidden_children (objs st1 p))
                    then save_metadata n e
                           (upd st1 p (\<lambda>pn. pn\<lparr>hidden_children := remove1 self (hidden_children pn)\<rparr>)) p
                    else Raise ValueError st1)))"
| "save_metadata n e st self =
     (if cls (objs st self) = NodeComment then Return st
      else (let md = recompute_metadata e st self;
                st1 = upd st self (\<lambda>me. me\<lparr>metadata := md\<rparr>)
            in if allowed_children (cls (objs st1 self)) = []
                  \<and> ''<node_text>'' \<notin> set (property_keys (cls (objs st1 self)))
               then Return st1
               else and_then
                      (update_meta_comments e self md (children (objs st1 self)) (st1, None))
                      (\<lambda>(st2, meta_comment).
                         if meta_comment = None \<and> \<not> md_empty md
                         then (let (c, st3) = new_comment st2;
                                   st4 = set_value st3 c ''<node_text>''
                                           (sentinel @ '' '' @ encode e md)
                               in add_child n e st4 self c)
                         else Return st2)))"
  by pat_completeness auto
termination
  by (relation "inv_image (less_than <*lex*> less_than <*lex*> less_than)
        (\<lambda>x. case x of
           Inl (Inl (n, e, st, s, c)) \<Rightarrow> (n, 0::nat, 0::nat)
         | Inl (Inr (Inl (n, e, st, s))) \<Rightarrow> (n, 2, 0)
         | Inl (Inr (Inr (n, e, st, s))) \<Rightarrow> (n, 5, 0)
         | Inr (Inl (n, e, st, s, l)) \<Rightarrow> (n, 4, length l)
         | Inr (Inr (Inl (n, e, st, s, h))) \<Rightarrow> (n, 3, 0)
         | Inr (Inr (Inr (n, e, st, s))) \<Rightarrow> (n, 1, 0))") auto

declare add_child.simps [simp del] write_attribs.simps [simp del] load_metadata.simps [simp del]
  load_hidden_nodes.simps [simp del] set_hidden.simps [simp del] save_metadata.simps [simp del]

section \<open>Closed forms and example documents\<close>

text \<open>
  The store in which every node of \<open>S\<close> has had its child list sorted: what the loop of
  \<^verbatim>\<open>sort\<close> arrives at.
\<close>

definition sorted_at :: "state \<Rightarrow> nid set \<Rightarrow> state" where
  "sorted_at st S =
     st\<lparr>objs := (\<lambda>i. if i \<in> S
                      then (objs st i)\<lparr>children := sort_key (node_sort_key st) (children (objs st i))\<rparr>
                      else objs st i)\<rparr>"

text \<open>
  Nodes of the example stores: \<open>made c i\<close> is the node \<open>i\<close> as its constructor or the
  parser made it, at the top of its own document; \<open>placed c p d\<close> is a node that was
  appended to \<open>p\<close>, in the document \<open>d\<close> of \<open>p\<close>.
\<close>

definition made :: "node_class \<Rightarrow> nid \<Rightarrow> pynode" where
  "made c i = (init c)\<lparr>doc := i\<rparr>"

definition placed :: "node_class \<Rightarrow> nid \<Rightarrow> nid \<Rightarrow> pynode" where
  "placed c p d = (init c)\<lparr>parent := Some p, doc := d, top := False\<rparr>"

text \<open>
  An environment and three small stores to run the methods on: a plugin whose children
  are out of order, next to two detached nodes; a type descriptor that holds a dependency
  type, next to a detached type node; and a list of plugins holding one plugin, next to a
  second plugin (node 4) that \<^verbatim>\<open>remove\<close> has taken out of the list, the children of both
  plugins out of order.
\<close>

definition env0 :: env where
  "env0 = \<lparr>encode = (\<lambda>md. ''{}''), decode = (\<lambda>s. Inl JSONDecodeError),
            tostring = (\<lambda>st i. ''<node/>''),
            copy_node_fromstring = (\<lambda>s p st. Raise (OtherError ''XMLSyntaxError'') st),
            sep = CHR ''/''\<rparr>"

definition plugin_doc :: state where
  "plugin_doc =
     \<lparr>nodes = [0, 1, 2, 3, 4, 5],
      objs = (\<lambda>i. made NodeComment i)
        (0 := (made NodeConfigPlugin 0)\<lparr>children := [1, 2]\<rparr>,
         1 := (placed NodeConfigTypeDesc 0 0)\<lparr>children := [5]\<rparr>,
         2 := placed NodeConfigPluginDescription 0 0,
         3 := made NodeConfigImage 3,
         4 := made NodeConfigTypeDesc 4,
         5 := (placed NodeComment 1 0)\<lparr>node_text := ''a note''\<rparr>)\<rparr>"

definition typedesc_doc :: state where
  "typedesc_doc =
     \<lparr>nodes = [0, 1, 2],
      objs = (\<lambda>i. made NodeComment i)
        (0 := (made NodeConfigTypeDesc 0)\<lparr>children := [1]\<rparr>,
         1 := placed NodeConfigDependencyType 0 0,
         2 := made NodeConfigType 2)\<rparr>"


text \<open>
  A metadata comment: a comment whose text starts with the sentinel, the test of
  \<^verbatim>\<open>save_metadata\<close> (lines 276 and 277).
\<close>

definition is_meta_comment :: "state \<Rightarrow> nid \<Rightarrow> bool" where
  "is_meta_comment st c =
     (cls (objs st c) = NodeComment \<and> startswith (node_text (objs st c)) sentinel)"

text \<open>
  The stores the loop of \<^verbatim>\<open>save_metadata\<close> arrives at: the nodes of \<open>S\<close> hold the text
  \<open>t\<close>; or the nodes of \<open>S\<close> have been unlinked from \<open>p\<close>.
\<close>

definition with_text :: "state \<Rightarrow> nid set \<Rightarrow> string \<Rightarrow> state" where
  "with_text st S t =
     st\<lparr>objs := (\<lambda>i. if i \<in> S then (objs st i)\<lparr>node_text := t\<rparr> else objs st i)\<rparr>"

definition without_children :: "state \<Rightarrow> nid \<Rightarrow> nid set \<Rightarrow> state" where
  "without_children st p S =
     st\<lparr>objs := (\<lambda>i. if i = p
                      then (objs st p)\<lparr>children := filter (\<lambda>c. c \<notin> S) (children (objs st p))\<rparr>
                      else if i \<in> S then (objs st i)\<lparr>parent := None, top := False\<rparr>
                      else objs st i)\<rparr>"

text \<open>
  What lxml keeps true of its trees: the parent of a node of the store is in the store, a
  child list holds no node twice, and every child names its parent.
\<close>

definition tree_ok :: "state \<Rightarrow> bool" where
  "tree_ok st =
     (\<forall>i \<in> set (nodes st).
        (case parent (objs st i) of None \<Rightarrow> True | Some q \<Rightarrow> q \<in> set (nodes st))
        \<and> distinct (children (objs st i))
        \<and> (\<forall>c \<in> set (children (objs st i)). parent (objs st c) = Some i))"

text \<open>
  The store just before \<^verbatim>\<open>add_child\<close> is called with the new metadata comment, and the store once
  the comment has been appended.
\<close>

definition with_new_comment :: "state \<Rightarrow> nid \<Rightarrow> metadata \<Rightarrow> string \<Rightarrow> state" where
  "with_new_comment st s md t =
     \<lparr>nodes = nodes st @ [fresh_id st],
      objs = (objs st)
        (s := (objs st s)\<lparr>metadata := md\<rparr>,
         fresh_id st := (init NodeComment)\<lparr>doc := fresh_id st,
                                           properties := (\<lambda>key. [])(''<node_text>'' := t)\<rparr>)\<rparr>"

definition with_meta_comment :: "state \<Rightarrow> nid \<Rightarrow> metadata \<Rightarrow> string \<Rightarrow> state" where
  "with_meta_comment st s md t =
     \<lparr>nodes = nodes st @ [fresh_id st],
      objs = (objs st)
        (s := (objs st s)\<lparr>metadata := md, children := children (objs st s) @ [fresh_id st]\<rparr>,
         fresh_id st := (init NodeComment)\<lparr>doc := doc (objs st s), top := False,
                                           properties := (\<lambda>key. [])(''<node_text>'' := t),
                                           parent := Some s, node_text := t\<rparr>)\<rparr>"

text \<open>
  Further stores to run the methods on: a plugin with a user rank; a default type, which
  has neither children nor text in the schema, holding a metadata comment; a type
  descriptor whose only child is a comment, next to a detached dependency type; an empty
  type descriptor with a user rank, next to a detached dependency type; and a plugin
  whose comment is the sentinel alone.
\<close>

definition ranked_doc :: state where
  "ranked_doc =
     \<lparr>nodes = [0, 1],
      objs = (\<lambda>i. made NodeComment i)
        (0 := (made NodeConfigPlugin 0)\<lparr>children := [1], user_sort_order := ''0000005''\<rparr>,
         1 := placed NodeConfigPluginDescription 0 0)\<rparr>"

definition leaf_doc :: state where
  "leaf_doc =
     \<lparr>nodes = [0, 1],
      objs = (\<lambda>i. made NodeComment i)
        (0 := (made NodeConfigDefaultType 0)\<lparr>children := [1]\<rparr>,
         1 := (placed NodeComment 0 0)\<lparr>node_text := ''<designer.metadata.do.not.edit> {}''\<rparr>)\<rparr>"

definition commented_doc :: state where
  "commented_doc =
     \<lparr>nodes = [0, 1, 2],
      objs = (\<lambda>i. made NodeComment i)
        (0 := (made NodeConfigTypeDesc 0)\<lparr>children := [1]\<rparr>,
         1 := (placed NodeComment 0 0)\<lparr>node_text := ''a note''\<rparr>,
         2 := made NodeConfigDependencyType 2)\<rparr>"

definition ranked_typedesc_doc :: state where
  "ranked_typedesc_doc =
     \<lparr>nodes = [0, 1],
      objs = (\<lambda>i. made NodeComment i)
        (0 := (made NodeConfigTypeDesc 0)\<lparr>user_sort_order := ''0000005''\<rparr>,
         1 := made NodeConfigDependencyType 1)\<rparr>"

definition bare_sentinel_doc :: state where
  "bare_sentinel_doc =
     \<lparr>nodes = [0, 1],
      objs = (\<lambda>i. made NodeComment i)
        (0 := (made NodeConfigPlugin 0)\<lparr>children := [1]\<rparr>,
         1 := (placed NodeComment 0 0)\<lparr>node_text := ''<designer.metadata.do.not.edit>''\<rparr>)\<rparr>"

section \<open>Properties of the snapshot escaping\<close>

lemma replace_Nil: "old \<noteq> [] \<Longrightarrow> replace old new [] = []"
  by (simp add: replace.simps)

lemma replace_Cons:
  "old \<noteq> [] \<Longrightarrow> replace old new (c # cs) =
     (if prefix old (c # cs) then new @ replace old new (drop (length old) (c # cs))
      else c # replace old new cs)"
  by (subst replace.simps) simp

text \<open>
  All four substitutions of the codec replace a pattern by a text with the same first
  character, so a pass never changes the first character of its input.
\<close>

lemma replace_head:
  assumes "old \<noteq> []" "new \<noteq> []" "hd new = hd old"
  shows "\<exists>t. replace old new (c # cs) = c # t"
proof (cases "prefix old (c # cs)")
  case True
  with assms(1) have "hd old = c" by (cases old) auto
  with assms(2,3) obtain n' where "new = c # n'" by (cases new) auto
  with True assms(1) show ?thesis by (simp add: replace_Cons)
next
  case False
  with assms(1) show ?thesis by (simp add: replace_Cons)
qed

abbreviation escA :: "string \<Rightarrow> string" where "escA \<equiv> replace ''<!--'' ''<!- -''"
abbreviation escB :: "string \<Rightarrow> string" where "escB \<equiv> replace ''-->'' ''- ->''"
abbreviation unA :: "string \<Rightarrow> string" where "unA \<equiv> replace ''<!- -'' ''<!--''"
abbreviation unB :: "string \<Rightarrow> string" where "unB \<equiv> replace ''- ->'' ''-->''"

lemma escA_gt: "prefix ''>'' (escA r) \<longleftrightarrow> prefix ''>'' r"
proof (cases r)
  case Nil
  then show ?thesis by (simp add: replace_Nil)
next
  case (Cons c cs)
  obtain t where "escA (c # cs) = c # t"
    using replace_head[of "''<!--''" "''<!- -''" c cs] by auto
  with Cons show ?thesis by simp
qed

lemma escA_dash_gt: "prefix ''->'' (escA r) \<longleftrightarrow> prefix ''->'' r"
proof (cases r)
  case Nil
  then show ?thesis by (simp add: replace_Nil)
next
  case (Cons c cs)
  show ?thesis
  proof (cases "c = CHR ''-''")
    case True
    with Cons show ?thesis using escA_gt[of cs] by (simp add: replace_Cons)
  next
    case False
    obtain t where "escA (c # cs) = c # t"
      using replace_head[of "''<!--''" "''<!- -''" c cs] by auto
    with Cons False show ?thesis by simp
  qed
qed

lemma unB_space:
  "unB (CHR '' '' # CHR ''-'' # CHR ''>'' # z) = CHR '' '' # CHR ''-'' # CHR ''>'' # unB z"
  by (simp add: replace_Cons)

text \<open>
  The round trip, by induction on the length of the text and a case analysis on how it
  starts: at \<open><!--\<close> (followed by \<open>->\<close> or not), at another \<open><\<close>, at \<open>-->\<close>, at another
  \<open>-\<close>, or at any other character. Where a pass of the decoder could match at the
  first character, the text would have to hold a placeholder already.
\<close>

lemma roundtrip_passes:
  "\<not> contains ''<!- -'' s \<Longrightarrow> \<not> contains ''- ->'' s \<Longrightarrow> unB (unA (escB (escA s))) = s"
proof (induction s rule: length_induct)
  case (1 s)
  show ?case
  proof (cases s)
    case Nil
    then show ?thesis by (simp add: replace_Nil)
  next
    case (Cons c cs)
    from 1 Cons have np: "\<not> prefix ''<!- -'' (c # cs)" "\<not> prefix ''- ->'' (c # cs)"
      and ncs: "\<not> contains ''<!- -'' cs" "\<not> contains ''- ->'' cs"
      by auto
    from 1 Cons ncs have IHcs: "unB (unA (escB (escA cs))) = cs" by simp
    have suffix_free: "\<not> contains ''<!- -'' r \<and> \<not> contains ''- ->'' r" if "cs = p @ r" for p r
      using ncs unfolding that by (induction p) auto
    have IHr: "unB (unA (escB (escA r))) = r" if "cs = p @ r" for p r
      using 1 Cons suffix_free[OF that] that by simp
    define Z where "Z = unA (escB (escA cs))"
    have Zsp: "\<not> prefix '' ->'' Z" if "c = CHR ''-''"
    proof
      assume "prefix '' ->'' Z"
      then obtain z where "Z = '' ->'' @ z" by (auto elim: prefixE)
      then have "unB Z = '' ->'' @ unB z" using unB_space by simp
      with IHcs have "cs = '' ->'' @ unB z" by (simp add: Z_def)
      with np(2) that show False by simp
    qed
    consider (lt1) "c = CHR ''<''" "prefix ''!--'' cs"
      | (lt2) "c = CHR ''<''" "\<not> prefix ''!--'' cs"
      | (d1) "c = CHR ''-''" "prefix ''->'' cs"
      | (d2) "c = CHR ''-''" "\<not> prefix ''->'' cs"
      | (other) "c \<noteq> CHR ''<''" "c \<noteq> CHR ''-''"
      by blast
    then show ?thesis
    proof cases
      case other
      then have "CHR ''<'' \<noteq> c" "CHR ''-'' \<noteq> c" by auto
      with IHcs show ?thesis unfolding Cons by (simp add: replace_Cons)
    next
      case d2
      have "escB (escA s) = CHR ''-'' # escB (escA cs)"
        unfolding Cons using d2 escA_dash_gt[of cs] by (simp add: replace_Cons)
      then have "unA (escB (escA s)) = CHR ''-'' # Z"
        by (simp add: replace_Cons Z_def)
      then have "unB (unA (escB (escA s))) = CHR ''-'' # unB Z"
        using Zsp[OF d2(1)] by (simp add: replace_Cons)
      with IHcs d2 show ?thesis unfolding Cons Z_def by simp
    next
      case d1
      then obtain r where r: "cs = ''->'' @ r" by (auto elim: prefixE)
      have "unB (unA (escB (escA s))) = ''-->'' @ unB (unA (escB (escA r)))"
        unfolding Cons r using d1(1) by (simp add: replace_Cons)
      with IHr[OF r] d1(1) show ?thesis unfolding Cons r by simp
    next
      case lt1
      then obtain r where r: "cs = ''!--'' @ r" by (auto elim: prefixE)
      show ?thesis
      proof (cases "prefix ''->'' r")
        case True
        then obtain r2 where r2: "r = ''->'' @ r2" by (auto elim: prefixE)
        have cs2: "cs = ''!--->'' @ r2" using r r2 by simp
        have "unB (unA (escB (escA s))) = ''<!--->'' @ unB (unA (escB (escA r2)))"
          unfolding Cons cs2 using lt1(1) by (simp add: replace_Cons)
        with IHr[OF cs2] lt1(1) show ?thesis unfolding Cons cs2 by simp
      next
        case False
        define Y where "Y = unA (escB (escA r))"
        have Yr: "unB Y = r" using IHr[OF r] by (simp add: Y_def)
        have "escB (escA s) = ''<!- -'' @ escB (escA r)"
          unfolding Cons r using lt1(1) False escA_dash_gt[of r] by (simp add: replace_Cons)
        then have "unA (escB (escA s)) = ''<!--'' @ Y"
          by (simp add: replace_Cons Y_def)
        moreover have "\<not> prefix '' ->'' Y"
        proof
          assume "prefix '' ->'' Y"
          then obtain z where "Y = '' ->'' @ z" by (auto elim: prefixE)
          then have "unB Y = '' ->'' @ unB z" using unB_space by simp
          with Yr have "r = '' ->'' @ unB z" by simp
          with ncs(2) r show False by simp
        qed
        ultimately have "unB (unA (escB (escA s))) = ''<!--'' @ unB Y"
          by (simp add: replace_Cons)
        with Yr lt1(1) show ?thesis unfolding Cons r by simp
      qed
    next
      case lt2
      have "escB (escA s) = CHR ''<'' # escB (escA cs)"
        unfolding Cons using lt2 by (simp add: replace_Cons)
      moreover have "\<not> prefix ''!- -'' (escB (escA cs))"
      proof
        assume "prefix ''!- -'' (escB (escA cs))"
        then obtain y where y: "escB (escA cs) = ''!- -'' @ y" by (auto elim: prefixE)
        then have "unA (escB (escA cs)) = ''!- -'' @ unA y" by (simp add: replace_Cons)
        then have *: "cs = unB (''!- -'' @ unA y)" using IHcs by simp
        obtain t where t: "unB (CHR ''-'' # unA y) = CHR ''-'' # t"
          using replace_head[of "''- ->''" "''-->''" "CHR ''-''" "unA y"] by auto
        show False
        proof (cases "prefix ''>'' (unA y)")
          case True
          then obtain w where "unA y = ''>'' @ w" by (auto elim: prefixE)
          with * have "cs = ''!-->'' @ unB w" by (simp add: replace_Cons)
          with lt2(2) show False by simp
        next
          case False
          with * t have "cs = ''!- -'' @ t" by (simp add: replace_Cons)
          with np(1) lt2(1) show False by simp
        qed
      qed
      ultimately have "unA (escB (escA s)) = CHR ''<'' # unA (escB (escA cs))"
        by (simp add: replace_Cons)
      then have "unB (unA (escB (escA s))) = CHR ''<'' # unB (unA (escB (escA cs)))"
        by (simp add: replace_Cons)
      with IHcs lt2(1) show ?thesis unfolding Cons by simp
    qed
  qed
qed

text \<open>
  For a text that holds neither placeholder, whatever combination of \<^verbatim>\<open><!--\<close>, \<^verbatim>\<open>-->\<close> and
  \<^verbatim>\<open>--\<close> it holds, escaping and then un-escaping gives the text back.
\<close>

lemma roundtrip_without_placeholders:
  "\<not> contains ''<!- -'' s \<Longrightarrow> \<not> contains ''- ->'' s \<Longrightarrow>
   unescape_snapshot (escape_snapshot s) = s"
  unfolding escape_snapshot_def unescape_snapshot_def by (rule roundtrip_passes)

text \<open>
  C1: escaping a snapshot and un-escaping it again does not give back every snapshot
  the program makes. \<^verbatim>\<open>save_metadata\<close> writes the placeholders into the metadata comment
  of a node that has a hidden child holding a comment; when that node is hidden in turn,
  its serialisation holds the placeholders, the encoder leaves them alone, and the
  decoder turns them into comment delimiters: what \<^verbatim>\<open>load_metadata\<close> parses is another
  text, with a comment inside a comment.
\<close>

theorem snapshot_roundtrip_fails:
  "unescape_snapshot (escape_snapshot nested_snapshot)
     = ''<plugin name='' @ dq @ dq @ ''><files><!--a note--></files>''
       @ ''<!--<designer.metadata.do.not.edit> {'' @ dq @ ''hidden_nodes'' @ dq @ '':['' @ dq
       @ ''<files><!--a note--></files>'' @ dq @ '']}--></plugin>''
   \<and> unescape_snapshot (escape_snapshot nested_snapshot) \<noteq> nested_snapshot"
  by (simp add: nested_snapshot_def dq_def escape_snapshot_def unescape_snapshot_def
      replace_Cons replace_Nil)

section \<open>Properties of the sort engine\<close>

lemma node_sort_key_sorted_at [simp]: "node_sort_key (sorted_at st S) = node_sort_key st"
  by (rule ext) (simp add: node_sort_key_def sorted_at_def)

lemma sort_key_twice: "sort_key f (sort_key f xs) = sort_key f xs"
  by (simp add: sort_key_id_if_sorted)

lemma objs_sorted_at:
  "objs (sorted_at st S) i =
     (if i \<in> S then (objs st i)\<lparr>children := sort_key (node_sort_key st) (children (objs st i))\<rparr>
      else objs st i)"
  by (simp add: sorted_at_def)

lemma nodes_sorted_at [simp]: "nodes (sorted_at st S) = nodes st"
  by (simp add: sorted_at_def)

lemma sorted_at_empty: "sorted_at st {} = st"
  by (simp add: sorted_at_def)

lemma sort_children_sorted_at: "sort_children (sorted_at st S) p = sorted_at st (insert p S)"
proof -
  have "sort_children (sorted_at st S) p =
          upd (sorted_at st S) p
            (\<lambda>n. n\<lparr>children := sort_key (node_sort_key st) (children n)\<rparr>)"
    by (simp add: sort_children_def)
  also have "\<dots> = sorted_at st (insert p S)"
    by (auto simp add: upd_def sorted_at_def sort_key_twice fun_eq_iff)
  finally show ?thesis .
qed

lemma fold_sort_children:
  "fold (\<lambda>p s. sort_children s p) ps (sorted_at st S) = sorted_at st (S \<union> set ps)"
  by (induction ps arbitrary: S) (simp_all add: sort_children_sorted_at)

text \<open>The loop of \<^verbatim>\<open>sort\<close> sorts the child list of each selected node once.\<close>

lemma sort_tree_closed:
  "sort_tree st self =
     (if cls (objs st self) = NodeComment then st else sorted_at st (set (xpath_parents st self)))"
  using fold_sort_children[of "xpath_parents st self" st "{}"]
  by (simp add: sort_tree_def sorted_at_empty)

lemma ancestors_upto_cong:
  "(\<And>i. parent (objs st' i) = parent (objs st i)) \<Longrightarrow> ancestors_upto k st' i = ancestors_upto k st i"
  by (induction k arbitrary: i) (simp_all split: option.splits)

lemma root_of_sorted_at [simp]: "root_of (sorted_at st S) = root_of st"
proof (rule ext)
  fix i
  have "ancestors_upto k (sorted_at st S) i = ancestors_upto k st i" for k
    by (rule ancestors_upto_cong) (simp add: sorted_at_def)
  then show "root_of (sorted_at st S) i = root_of st i"
    by (simp add: root_of_def ancestors_or_self_def sorted_at_def)
qed

lemma in_document_sorted_at [simp]: "in_document (sorted_at st S) x i = in_document st x i"
  by (simp add: in_document_def objs_sorted_at)

lemma xpath_parents_sorted_at [simp]:
  "xpath_parents (sorted_at st S) x = xpath_parents st x"
  by (simp add: xpath_parents_def) (simp add: sorted_at_def cong: filter_cong)

lemma sorted_at_twice: "sorted_at (sorted_at st S) S = sorted_at st S"
proof -
  define T where "T = sorted_at st S"
  have k: "node_sort_key T = node_sort_key st" by (simp add: T_def)
  have "sorted_at T S =
          T\<lparr>objs := (\<lambda>i. if i \<in> S
             then (objs T i)\<lparr>children := sort_key (node_sort_key st) (children (objs T i))\<rparr>
             else objs T i)\<rparr>"
    unfolding sorted_at_def[of T] k by (rule refl)
  also have "\<dots> = T"
    by (auto simp add: T_def sorted_at_def sort_key_twice fun_eq_iff)
  finally show ?thesis by (simp add: T_def)
qed






text \<open>
  C7: calling \<^verbatim>\<open>sort()\<close> twice in succession leaves every node as one call does; the
  second call changes nothing.
\<close>

theorem sort_idempotent: "sort_tree (sort_tree st x) x = sort_tree st x"
proof (cases "cls (objs st x) = NodeComment")
  case True
  then show ?thesis by (simp add: sort_tree_def)
next
  case False
  then have "cls (objs (sorted_at st S) x) \<noteq> NodeComment" for S
    by (simp add: sorted_at_def)
  with False show ?thesis by (simp add: sort_tree_closed sorted_at_twice)
qed

text \<open>
  C10: \<^verbatim>\<open>sort()\<close> neither creates, destroys nor reparents nodes. The nodes of the store
  are the same; for every node \<open>i\<close> the children after the call are a permutation of the
  children before, its parent reference is unchanged, and nothing but its child list
  differs.
\<close>

theorem sort_preserves_structure:
  "nodes (sort_tree st x) = nodes st
   \<and> mset (children (objs (sort_tree st x) i)) = mset (children (objs st i))
   \<and> parent (objs (sort_tree st x) i) = parent (objs st i)
   \<and> objs (sort_tree st x) i = (objs st i)\<lparr>children := children (objs (sort_tree st x) i)\<rparr>"
  by (simp add: sort_tree_closed objs_sorted_at)

section \<open>Properties of the tree mutation engine\<close>

text \<open>
  C5, as stated: \<^verbatim>\<open>can_add_child\<close> is true exactly when the candidate's class is allowed
  (or the candidate is a comment) and its cardinality is not exceeded. A type descriptor
  that holds a dependency type rejects a type node, though the class is allowed and no
  type node is present: the two classes are the either-group of the type descriptor, of
  which one member may be present.
\<close>

theorem can_add_child_counterexample:
  "(cls (objs typedesc_doc 2) \<in> set (allowed_children (cls (objs typedesc_doc 0)))
      \<or> cls (objs typedesc_doc 2) = NodeComment)
   \<and> length (filter (\<lambda>item. cls (objs typedesc_doc item) = cls (objs typedesc_doc 2))
               (children (objs typedesc_doc 0)))
       < allowed_instances (cls (objs typedesc_doc 2))
   \<and> cls (objs typedesc_doc 0) = NodeConfigTypeDesc
   \<and> cls (objs typedesc_doc 1) = NodeConfigDependencyType
   \<and> children (objs typedesc_doc 0) = [1]
   \<and> can_add_child typedesc_doc 0 2 = Return False"
  by (simp add: typedesc_doc_def init_def made_def placed_def can_add_child_def
      can_add_child_base_def)

text \<open>
  C5, amended: for an element P and a candidate C, \<^verbatim>\<open>can_add_child(C)\<close> returns true if and
  only if C's class is in P's \<^verbatim>\<open>allowed_children\<close> or C is a comment, and C's class is
  unbounded (\<^verbatim>\<open>allowed_instances\<close> 0) or P has fewer children of C's exact class than
  \<^verbatim>\<open>allowed_instances\<close>, and, when P is a \<^verbatim>\<open>typeDescriptor\<close>, P holds no element yet (one
  member of its either-group may be present). The call returns a truth value and no
  store: it changes nothing. For a \<^verbatim>\<open>typeDescriptor\<close> this is stated for an element
  candidate and a P that holds no comment; the override's \<^verbatim>\<open>len(self) < 1\<close> also counts
  comments and so departs from the rule where a comment is the candidate or a child.
\<close>

theorem can_add_child_iff:
  assumes "cls (objs st P) \<noteq> NodeComment"
    and "cls (objs st P) = NodeConfigTypeDesc \<Longrightarrow> cls (objs st C) \<noteq> NodeComment"
    and "cls (objs st P) = NodeConfigTypeDesc \<Longrightarrow>
           \<forall>c \<in> set (children (objs st P)). cls (objs st c) \<noteq> NodeComment"
  shows "can_add_child st P C = Return
     ((cls (objs st C) \<in> set (allowed_children (cls (objs st P))) \<or> cls (objs st C) = NodeComment)
      \<and> (allowed_instances (cls (objs st C)) = 0
         \<or> length (filter (\<lambda>item. cls (objs st item) = cls (objs st C)) (children (objs st P)))
             < allowed_instances (cls (objs st C)))
      \<and> (cls (objs st P) = NodeConfigTypeDesc \<longrightarrow>
           filter (\<lambda>c. cls (objs st c) \<noteq> NodeComment) (children (objs st P)) = []))"
proof (cases "cls (objs st P) = NodeConfigTypeDesc")
  case False
  with assms(1) show ?thesis
    unfolding can_add_child_def can_add_child_base_def by auto
next
  case True
  from assms(3)[OF True]
  have "filter (\<lambda>c. cls (objs st c) \<noteq> NodeComment) (children (objs st P)) = children (objs st P)"
    by (simp add: filter_id_conv)
  with True assms(1) show ?thesis
    unfolding can_add_child_def can_add_child_base_def by auto
qed

theorem can_add_child_iff_witness:
  "cls (objs typedesc_doc 2) = NodeConfigType
   \<and> cls (objs typedesc_doc 0) = NodeConfigTypeDesc
   \<and> children (objs typedesc_doc 0) = [1]
   \<and> cls (objs typedesc_doc 1) = NodeConfigDependencyType
   \<and> can_add_child typedesc_doc 0 2 = Return False
   \<and> cls (objs plugin_doc 0) = NodeConfigPlugin
   \<and> can_add_child plugin_doc 0 3 = Return True
   \<and> cls (objs ranked_typedesc_doc 0) = NodeConfigTypeDesc
   \<and> children (objs ranked_typedesc_doc 0) = []
   \<and> cls (objs ranked_typedesc_doc 1) = NodeConfigDependencyType
   \<and> can_add_child ranked_typedesc_doc 0 1 = Return True"
  using can_add_child_iff[of typedesc_doc 0 2] can_add_child_iff[of plugin_doc 0 3]
    can_add_child_iff[of ranked_typedesc_doc 0 1]
  by (simp add: typedesc_doc_def plugin_doc_def ranked_typedesc_doc_def init_def made_def
      placed_def)

text \<open>
  C2: when the candidate's class has \<^verbatim>\<open>allowed_instances = N > 0\<close> and the parent already
  has \<open>N\<close> children of that exact class, \<^verbatim>\<open>can_add_child\<close> is false and \<^verbatim>\<open>add_child\<close>
  returns with the store as it was: the parent's children, the candidate and every
  other node are unchanged.
\<close>

theorem cardinality_enforced:
  assumes "cls (objs st P) \<noteq> NodeComment"
    and "allowed_instances (cls (objs st C)) = N" and "0 < N"
    and "length (filter (\<lambda>item. cls (objs st item) = cls (objs st C)) (children (objs st P))) = N"
  shows "can_add_child st P C = Return False \<and> add_child n e st P C = Return st"
proof -
  from assms have no: "can_add_child st P C = Return False"
    unfolding can_add_child_def can_add_child_base_def by simp
  with assms(1) have "add_child n e st P C = Return st"
    by (cases n) (simp_all add: add_child.simps)
  with no show ?thesis by simp
qed

theorem cardinality_enforced_witness:
  "cls (objs plugin_doc 0) \<noteq> NodeComment
   \<and> allowed_instances (cls (objs plugin_doc 4)) = 1
   \<and> length (filter (\<lambda>item. cls (objs plugin_doc item) = cls (objs plugin_doc 4))
               (children (objs plugin_doc 0))) = 1
   \<and> can_add_child plugin_doc 0 4 = Return False
   \<and> add_child 5 env0 plugin_doc 0 4 = Return plugin_doc"
proof -
  have a: "cls (objs plugin_doc 0) \<noteq> NodeComment"
    by (simp add: plugin_doc_def init_def made_def)
  have b: "allowed_instances (cls (objs plugin_doc 4)) = 1"
    by (simp add: plugin_doc_def init_def made_def)
  have c: "length (filter (\<lambda>item. cls (objs plugin_doc item) = cls (objs plugin_doc 4))
               (children (objs plugin_doc 0))) = 1"
    by (simp add: plugin_doc_def init_def made_def placed_def)
  from a b c cardinality_enforced[OF a b _ c, of 5 env0] show ?thesis by simp
qed

section \<open>Properties of the metadata codec\<close>

lemma state_eqI: "nodes a = nodes b \<Longrightarrow> (\<And>i. objs a i = objs b i) \<Longrightarrow> a = (b::state)"
  by (cases a, cases b) (simp add: fun_eq_iff)

lemma startswith_sentinel [simp]: "startswith (sentinel @ t) sentinel"
  by (simp add: startswith_def)

lemma update_meta_comments_text:
  assumes "\<not> md_empty md"
  shows "\<exists>mc. update_meta_comments e p md cs (st, m)
            = Return (with_text st (set (filter (is_meta_comment st) cs))
                        (sentinel @ '' '' @ encode e md), mc)
          \<and> (mc = None \<longleftrightarrow> m = None \<and> filter (is_meta_comment st) cs = [])"
proof (induction cs arbitrary: st m)
  case Nil
  have "with_text st {} (sentinel @ '' '' @ encode e md) = st"
    by (simp add: with_text_def)
  then show ?case by simp
next
  case (Cons c cs)
  let ?t = "sentinel @ '' '' @ encode e md"
  show ?case
  proof (cases "is_meta_comment st c")
    case False
    then have "update_meta_comments e p md (c # cs) (st, m) = update_meta_comments e p md cs (st, m)"
      by (auto simp add: is_meta_comment_def)
    with Cons[of st m] False show ?thesis by simp
  next
    case True
    define st' where "st' = upd st c (\<lambda>n. n\<lparr>node_text := ?t\<rparr>)"
    have step: "update_meta_comments e p md (c # cs) (st, m)
                  = update_meta_comments e p md cs (st', Some c)"
      using True assms by (simp add: is_meta_comment_def st'_def)
    have same: "is_meta_comment st' = is_meta_comment st"
      using True by (auto simp add: fun_eq_iff is_meta_comment_def st'_def upd_def)
    have "with_text st' (set (filter (is_meta_comment st) cs)) ?t
            = with_text st (insert c (set (filter (is_meta_comment st) cs))) ?t"
      by (rule state_eqI) (auto simp add: with_text_def st'_def upd_def)
    with Cons[of st' "Some c"] step same True show ?thesis by auto
  qed
qed

lemma filter_absent: "c \<notin> set xs \<Longrightarrow> filter (\<lambda>x. x \<noteq> c) xs = xs"
  by (induction xs) auto

lemma remove1_filter_distinct: "distinct xs \<Longrightarrow> remove1 c xs = filter (\<lambda>x. x \<noteq> c) xs"
  by (induction xs) (auto simp add: filter_absent)

lemma update_meta_comments_remove:
  assumes "md_empty md" and "cls (objs st p) \<noteq> NodeComment"
    and "distinct cs" and "distinct (children (objs st p))"
    and "\<forall>c \<in> set cs. parent (objs st c) = Some p"
  shows "\<exists>mc. update_meta_comments e p md cs (st, m)
            = Return (without_children st p (set (filter (is_meta_comment st) cs)), mc)
          \<and> (mc = None \<longleftrightarrow> m = None \<and> filter (is_meta_comment st) cs = [])"
  using assms(2-)
proof (induction cs arbitrary: st m)
  case Nil
  have "without_children st p {} = st"
    by (rule state_eqI) (simp_all add: without_children_def)
  then show ?case by simp
next
  case (Cons c cs)
  show ?case
  proof (cases "is_meta_comment st c")
    case False
    then have "update_meta_comments e p md (c # cs) (st, m) = update_meta_comments e p md cs (st, m)"
      by (auto simp add: is_meta_comment_def)
    moreover from Cons.prems have "distinct cs" "\<forall>c \<in> set cs. parent (objs st c) = Some p"
      by simp_all
    ultimately show ?thesis
      using Cons.IH[of st m] Cons.prems(1,3) False by simp
  next
    case True
    define st' where "st' = unlink st c"
    from Cons.prems have pc: "parent (objs st c) = Some p" by simp
    from True Cons.prems(1) have cp: "c \<noteq> p" by (auto simp add: is_meta_comment_def)
    have st'_eq: "st' = upd (upd st p (\<lambda>n. n\<lparr>children := remove1 c (children n)\<rparr>))
                          c (\<lambda>n. n\<lparr>parent := None, top := False\<rparr>)"
      by (simp add: st'_def unlink_def pc)
    have step: "update_meta_comments e p md (c # cs) (st, m)
                  = update_meta_comments e p md cs (st', Some c)"
      using True assms(1) pc by (simp add: is_meta_comment_def st'_def lxml_remove_def)
    have same: "is_meta_comment st' = is_meta_comment st"
      by (auto simp add: fun_eq_iff is_meta_comment_def st'_eq upd_def)
    have p1: "cls (objs st' p) \<noteq> NodeComment"
      using Cons.prems(1) cp by (auto simp add: st'_eq upd_def)
    have p2: "distinct cs" using Cons.prems(2) by simp
    have p3: "distinct (children (objs st' p))"
      using Cons.prems(3) cp by (simp add: st'_eq upd_def)
    have p4: "\<forall>x \<in> set cs. parent (objs st' x) = Some p"
      using Cons.prems(2,4) by (auto simp add: st'_eq upd_def)
    have "without_children st' p (set (filter (is_meta_comment st) cs))
            = without_children st p (insert c (set (filter (is_meta_comment st) cs)))"
      using cp Cons.prems(3)
      by (intro state_eqI)
         (auto simp add: without_children_def st'_eq upd_def remove1_filter_distinct
               intro: filter_cong)
    with Cons.IH[OF p1 p2 p3 p4, of "Some c"] step same True show ?thesis by auto
  qed
qed

lemma fresh_id_fresh: "fresh_id st \<notin> set (nodes st)"
proof
  assume "fresh_id st \<in> set (nodes st)"
  then have "fresh_id st \<le> Max (set (0 # nodes st))" by (intro Max_ge) simp_all
  also have "\<dots> = fold max (nodes st) 0" by (rule Max.set_eq_fold)
  finally show False by (simp add: fresh_id_def)
qed

lemma ancestors_in_nodes:
  assumes "\<forall>i \<in> set ns. case parent (objs st i) of None \<Rightarrow> True | Some q \<Rightarrow> q \<in> set ns"
  shows "p \<in> set ns \<Longrightarrow> set (ancestors_upto k st p) \<subseteq> set ns"
proof (induction k arbitrary: p)
  case 0
  then show ?case by simp
next
  case (Suc k)
  show ?case
  proof (cases "parent (objs st p)")
    case None
    with Suc.prems show ?thesis by simp
  next
    case (Some q)
    with assms Suc.prems have "q \<in> set ns" by force
    from Suc.IH[OF this] Some Suc.prems show ?thesis by simp
  qed
qed

lemma is_meta_comment_cong:
  "(\<And>i. cls (objs st' i) = cls (objs st i)) \<Longrightarrow> (\<And>i. node_text (objs st' i) = node_text (objs st i))
   \<Longrightarrow> is_meta_comment st' = is_meta_comment st"
  by (simp add: fun_eq_iff is_meta_comment_def)

lemma objs_upd: "objs (upd st i f) j = (if j = i then f (objs st i) else objs st j)"
  by (simp add: upd_def)

lemma nodes_upd [simp]: "nodes (upd st i f) = nodes st"
  by (simp add: upd_def)

lemma save_metadata_leaf:
  assumes "cls (objs st s) \<noteq> NodeComment"
    and "allowed_children (cls (objs st s)) = []"
    and "''<node_text>'' \<notin> set (property_keys (cls (objs st s)))"
  shows "save_metadata n e st s
           = Return (upd st s (\<lambda>me. me\<lparr>metadata := recompute_metadata e st s\<rparr>))"
  using assms by (subst save_metadata.simps) (simp add: Let_def objs_upd)

lemma save_metadata_nonleaf:
  assumes "cls (objs st s) \<noteq> NodeComment"
    and "allowed_children (cls (objs st s)) \<noteq> []
         \<or> ''<node_text>'' \<in> set (property_keys (cls (objs st s)))"
  shows "save_metadata n e st s
           = and_then
               (update_meta_comments e s (recompute_metadata e st s) (children (objs st s))
                  (upd st s (\<lambda>me. me\<lparr>metadata := recompute_metadata e st s\<rparr>), None))
               (\<lambda>(st2, meta_comment).
                  if meta_comment = None \<and> \<not> md_empty (recompute_metadata e st s)
                  then (let (c, st3) = new_comment st2;
                            st4 = set_value st3 c ''<node_text>''
                                    (sentinel @ '' '' @ encode e (recompute_metadata e st s))
                        in add_child n e st4 s c)
                  else Return st2)"
  using assms by (subst save_metadata.simps) (auto simp add: Let_def objs_upd)

lemma save_metadata_update:
  assumes "cls (objs st s) \<noteq> NodeComment"
    and "allowed_children (cls (objs st s)) \<noteq> []
         \<or> ''<node_text>'' \<in> set (property_keys (cls (objs st s)))"
    and "\<not> md_empty (recompute_metadata e st s)"
    and "filter (is_meta_comment st) (children (objs st s)) \<noteq> []"
  shows "save_metadata n e st s
           = Return (with_text (upd st s (\<lambda>me. me\<lparr>metadata := recompute_metadata e st s\<rparr>))
                       (set (filter (is_meta_comment st) (children (objs st s))))
                       (sentinel @ '' '' @ encode e (recompute_metadata e st s)))"
proof -
  let ?md = "recompute_metadata e st s"
  let ?st1 = "upd st s (\<lambda>me. me\<lparr>metadata := ?md\<rparr>)"
  have same: "is_meta_comment ?st1 = is_meta_comment st"
    by (rule is_meta_comment_cong) (simp_all add: objs_upd)
  obtain mc where mc: "update_meta_comments e s ?md (children (objs st s)) (?st1, None)
        = Return (with_text ?st1 (set (filter (is_meta_comment st) (children (objs st s))))
                    (sentinel @ '' '' @ encode e ?md), mc)"
      "mc \<noteq> None"
    using update_meta_comments_text[OF assms(3), of e s "children (objs st s)" ?st1 None] assms(4)
    unfolding same by auto
  show ?thesis
    unfolding save_metadata_nonleaf[OF assms(1,2)] mc(1) using mc(2) by auto
qed

lemma save_metadata_remove:
  assumes "cls (objs st s) \<noteq> NodeComment"
    and "allowed_children (cls (objs st s)) \<noteq> []
         \<or> ''<node_text>'' \<in> set (property_keys (cls (objs st s)))"
    and "md_empty (recompute_metadata e st s)"
    and "distinct (children (objs st s))"
    and "\<forall>c \<in> set (children (objs st s)). parent (objs st c) = Some s"
  shows "save_metadata n e st s
           = Return (without_children (upd st s (\<lambda>me. me\<lparr>metadata := recompute_metadata e st s\<rparr>))
                       s (set (filter (is_meta_comment st) (children (objs st s)))))"
proof -
  let ?md = "recompute_metadata e st s"
  let ?st1 = "upd st s (\<lambda>me. me\<lparr>metadata := ?md\<rparr>)"
  have same: "is_meta_comment ?st1 = is_meta_comment st"
    by (rule is_meta_comment_cong) (simp_all add: objs_upd)
  have h1: "cls (objs ?st1 s) \<noteq> NodeComment" using assms(1) by (simp add: objs_upd)
  have h2: "distinct (children (objs ?st1 s))" using assms(4) by (simp add: objs_upd)
  have h3: "\<forall>c \<in> set (children (objs st s)). parent (objs ?st1 c) = Some s"
    using assms(5) by (simp add: objs_upd)
  obtain mc where mc: "update_meta_comments e s ?md (children (objs st s)) (?st1, None)
        = Return (without_children ?st1 s
                    (set (filter (is_meta_comment st) (children (objs st s)))), mc)"
    using update_meta_comments_remove[OF assms(3) h1 assms(4) h2 h3, of e None]
    unfolding same by auto
  show ?thesis
    unfolding save_metadata_nonleaf[OF assms(1,2)] mc using assms(3) by simp
qed

lemma with_text_empty [simp]: "with_text st {} t = st"
  by (simp add: with_text_def)

lemma save_metadata_no_comment:
  assumes "cls (objs st s) \<noteq> NodeComment"
    and "allowed_children (cls (objs st s)) \<noteq> []
         \<or> ''<node_text>'' \<in> set (property_keys (cls (objs st s)))"
    and "\<not> md_empty (recompute_metadata e st s)"
    and "filter (is_meta_comment st) (children (objs st s)) = []"
  shows "save_metadata n e st s
           = add_child n e
               (set_value
                  (snd (new_comment (upd st s (\<lambda>me. me\<lparr>metadata := recompute_metadata e st s\<rparr>))))
                  (fresh_id st) ''<node_text>''
                  (sentinel @ '' '' @ encode e (recompute_metadata e st s)))
               s (fresh_id st)"
proof -
  let ?md = "recompute_metadata e st s"
  let ?st1 = "upd st s (\<lambda>me. me\<lparr>metadata := ?md\<rparr>)"
  have same: "is_meta_comment ?st1 = is_meta_comment st"
    by (rule is_meta_comment_cong) (simp_all add: objs_upd)
  have mc: "update_meta_comments e s ?md (children (objs st s)) (?st1, None) = Return (?st1, None)"
    using update_meta_comments_text[OF assms(3), of e s "children (objs st s)" ?st1 None] assms(4)
    unfolding same by auto
  have f: "fresh_id ?st1 = fresh_id st" by (simp add: fresh_id_def)
  show ?thesis
    unfolding save_metadata_nonleaf[OF assms(1,2)] mc using assms(3)
    by (simp add: new_comment_def Let_def f)
qed

lemma new_comment_state:
  "set_value (snd (new_comment (upd st s (\<lambda>me. me\<lparr>metadata := md\<rparr>)))) (fresh_id st) ''<node_text>'' t
     = with_new_comment st s md t"
  by (rule state_eqI)
     (auto simp add: set_value_def new_comment_def Let_def upd_def with_new_comment_def fresh_id_def
        init_def)

lemma save_metadata_blocked:
  assumes "cls (objs st s) = NodeConfigTypeDesc" and "children (objs st s) \<noteq> []"
    and "s \<in> set (nodes st)"
    and "\<not> md_empty (recompute_metadata e st s)"
    and "filter (is_meta_comment st) (children (objs st s)) = []"
  shows "save_metadata n e st s
           = Return (with_new_comment st s (recompute_metadata e st s)
                       (sentinel @ '' '' @ encode e (recompute_metadata e st s)))"
proof -
  let ?st4 = "with_new_comment st s (recompute_metadata e st s)
                (sentinel @ '' '' @ encode e (recompute_metadata e st s))"
  from assms(3) fresh_id_fresh[of st] have ne: "s \<noteq> fresh_id st" by auto
  have a: "cls (objs st s) \<noteq> NodeComment" using assms(1) by simp
  have b: "allowed_children (cls (objs st s)) \<noteq> []
         \<or> ''<node_text>'' \<in> set (property_keys (cls (objs st s)))" using assms(1) by simp
  have c: "cls (objs ?st4 s) = NodeConfigTypeDesc" "children (objs ?st4 s) = children (objs st s)"
    using ne assms(1) by (simp_all add: with_new_comment_def)
  have "can_add_child ?st4 s (fresh_id st) = Return False"
    using c assms(2) by (simp add: can_add_child_def)
  then have "add_child n e ?st4 s (fresh_id st) = Return ?st4"
    using c by (cases n) (simp_all add: add_child.simps)
  then show ?thesis
    unfolding save_metadata_no_comment[OF a b assms(4,5)] new_comment_state .
qed

lemma self_in_ancestors: "i \<in> set (ancestors_upto k st i)"
  by (cases k) simp_all

text \<open>A node that no node of the store has above it enters a document alone.\<close>

lemma set_tree_doc_single:
  assumes "\<forall>i \<in> set ns. case parent (objs st i) of None \<Rightarrow> True | Some q \<Rightarrow> q \<in> set ns"
    and "c \<notin> set ns" and "set (nodes st) \<subseteq> insert c (set ns)" and "c \<in> set (nodes st)"
  shows "set_tree_doc st c d = upd st c (\<lambda>n. n\<lparr>doc := d\<rparr>)"
proof (rule state_eqI)
  show "nodes (set_tree_doc st c d) = nodes (upd st c (\<lambda>n. n\<lparr>doc := d\<rparr>))"
    by (simp add: set_tree_doc_def)
next
  fix i
  show "objs (set_tree_doc st c d) i = objs (upd st c (\<lambda>n. n\<lparr>doc := d\<rparr>)) i"
  proof (cases "i = c")
    case True
    with assms(4) self_in_ancestors[of c "length (nodes st)" st] show ?thesis
      by (simp add: set_tree_doc_def objs_upd ancestors_or_self_def)
  next
    case False
    have "\<not> (i \<in> set (nodes st) \<and> c \<in> set (ancestors_or_self st i))"
    proof
      assume a: "i \<in> set (nodes st) \<and> c \<in> set (ancestors_or_self st i)"
      with assms(3) False have "i \<in> set ns" by auto
      from ancestors_in_nodes[OF assms(1) this, of "length (nodes st)"] a assms(2)
      show False by (auto simp add: ancestors_or_self_def)
    qed
    with False show ?thesis by (auto simp add: set_tree_doc_def objs_upd)
  qed
qed

lemma save_metadata_append:
  assumes "cls (objs st s) \<noteq> NodeComment"
    and "allowed_children (cls (objs st s)) \<noteq> []
         \<or> ''<node_text>'' \<in> set (property_keys (cls (objs st s)))"
    and "cls (objs st s) \<noteq> NodeConfigTypeDesc \<or> children (objs st s) = []"
    and "s \<in> set (nodes st)"
    and "\<forall>i \<in> set (nodes st). case parent (objs st i) of None \<Rightarrow> True | Some q \<Rightarrow> q \<in> set (nodes st)"
    and "\<not> md_empty (recompute_metadata e st s)"
    and "filter (is_meta_comment st) (children (objs st s)) = []"
  shows "save_metadata (Suc n) e st s
           = Return (with_meta_comment st s (recompute_metadata e st s)
                       (sentinel @ '' '' @ encode e (recompute_metadata e st s)))"
proof -
  let ?md = "recompute_metadata e st s"
  let ?t = "sentinel @ '' '' @ encode e ?md"
  let ?c = "fresh_id st"
  define st4 where "st4 = with_new_comment st s ?md ?t"
  from assms(4) fresh_id_fresh[of st] have ne: "s \<noteq> ?c" by auto
  have o4: "objs st4 i = (if i = ?c then (init NodeComment)\<lparr>doc := ?c,
                                            properties := (\<lambda>key. [])(''<node_text>'' := ?t)\<rparr>
                           else if i = s then (objs st s)\<lparr>metadata := ?md\<rparr> else objs st i)" for i
    by (simp add: st4_def with_new_comment_def)
  have n4: "nodes st4 = nodes st @ [?c]" by (simp add: st4_def with_new_comment_def)
  have clsC: "cls (objs st4 ?c) = NodeComment" and parC: "parent (objs st4 ?c) = None"
    by (simp_all add: o4 init_def)
  have clsS: "cls (objs st4 s) = cls (objs st s)"
    and chS: "children (objs st4 s) = children (objs st s)"
    and docS: "doc (objs st4 s) = doc (objs st s)"
    using ne by (simp_all add: o4)
  have can: "can_add_child st4 s ?c = Return True"
    unfolding can_add_child_def can_add_child_base_def clsC clsS chS using assms(1,3) by auto
  have "\<forall>i \<in> set (nodes st). case parent (objs st4 i) of None \<Rightarrow> True | Some q \<Rightarrow> q \<in> set (nodes st)"
  proof
    fix i assume i: "i \<in> set (nodes st)"
    with fresh_id_fresh[of st] have "i \<noteq> ?c" by auto
    then have "parent (objs st4 i) = parent (objs st i)" by (simp add: o4)
    with assms(5) i show "case parent (objs st4 i) of None \<Rightarrow> True | Some q \<Rightarrow> q \<in> set (nodes st)"
      by simp
  qed
  from ancestors_in_nodes[OF this assms(4)] fresh_id_fresh[of st]
  have anc: "?c \<notin> set (ancestors_or_self st4 s)"
    unfolding ancestors_or_self_def by blast
  define st5 where "st5 = upd (upd (upd st4 ?c (\<lambda>n. n\<lparr>top := False\<rparr>))
                                 s (\<lambda>n. n\<lparr>children := children n @ [?c]\<rparr>))
                            ?c (\<lambda>n. n\<lparr>parent := Some s\<rparr>)"
  have p5: "\<forall>i \<in> set (nodes st). case parent (objs st5 i) of None \<Rightarrow> True | Some q \<Rightarrow> q \<in> set (nodes st)"
  proof
    fix i assume i: "i \<in> set (nodes st)"
    with fresh_id_fresh[of st] have "i \<noteq> ?c" by auto
    then have "parent (objs st5 i) = parent (objs st i)" by (simp add: st5_def objs_upd o4)
    with assms(5) i show "case parent (objs st5 i) of None \<Rightarrow> True | Some q \<Rightarrow> q \<in> set (nodes st)"
      by simp
  qed
  have n5: "nodes st5 = nodes st @ [?c]" by (simp add: st5_def n4)
  have doc5: "set_tree_doc st5 ?c (doc (objs st s)) = upd st5 ?c (\<lambda>n. n\<lparr>doc := doc (objs st s)\<rparr>)"
    by (rule set_tree_doc_single[OF p5 fresh_id_fresh]) (auto simp add: n5)
  define st5' where "st5' = upd st5 ?c (\<lambda>n. n\<lparr>doc := doc (objs st s)\<rparr>)"
  have app: "lxml_append st4 s ?c = Return st5'"
    using anc parC by (simp add: lxml_append_def unlink_def st5_def[symmetric] docS doc5 st5'_def)
  define st6 where "st6 = upd st5' ?c (\<lambda>me. me\<lparr>node_text := properties me ''<node_text>''\<rparr>)"
  have o6: "objs st6 ?c = (init NodeComment)\<lparr>doc := doc (objs st s), top := False,
                                                 properties := (\<lambda>key. [])(''<node_text>'' := ?t),
                                                 parent := Some s, node_text := ?t\<rparr>"
    using ne by (simp add: st6_def st5'_def st5_def objs_upd o4)
  have c5: "cls (objs st5' ?c) = NodeComment"
    using ne by (simp add: st5'_def st5_def objs_upd o4 init_def)
  have wa: "write_attribs n e st5' ?c = Return st6"
    apply (subst write_attribs.simps)
    apply (simp add: c5 Let_def st6_def[symmetric])
    apply (simp add: o6)
    done
  have c6: "cls (objs st6 ?c) = NodeComment" by (simp add: o6 init_def)
  have lm: "load_metadata n e st6 ?c = Return st6"
    by (subst load_metadata.simps) (simp add: c6)
  have "add_child (Suc n) e st4 s ?c = Return st6"
    using can assms(1) by (simp add: add_child.simps clsS app wa lm)
  moreover have "st6 = with_meta_comment st s ?md ?t"
    using ne
    by (intro state_eqI)
       (auto simp add: st6_def st5'_def st5_def objs_upd o4 n4 with_meta_comment_def init_def)
  ultimately show ?thesis
    unfolding save_metadata_no_comment[OF assms(1,2,6,7)] new_comment_state st4_def[symmetric]
    by simp
qed

lemma tree_okD:
  assumes "tree_ok st" "s \<in> set (nodes st)"
  shows "distinct (children (objs st s))"
    and "\<forall>c \<in> set (children (objs st s)). parent (objs st c) = Some s"
    and "\<forall>i \<in> set (nodes st). case parent (objs st i) of None \<Rightarrow> True | Some q \<Rightarrow> q \<in> set (nodes st)"
  using assms unfolding tree_ok_def by auto

lemma filter_meta_empty:
  "filter (is_meta_comment st) cs = [] \<longleftrightarrow> \<not> (\<exists>c \<in> set cs. is_meta_comment st c)"
  by (auto simp add: filter_empty_conv)

lemma filter_in_imp: "filter (\<lambda>c. c \<in> set cs \<longrightarrow> \<not> P c) cs = filter (\<lambda>c. \<not> P c) cs"
  by (rule filter_cong) auto

lemma filter_not_in_filter: "filter (\<lambda>c. c \<notin> set (filter P cs)) cs = filter (\<lambda>c. \<not> P c) cs"
  by (rule filter_cong) auto

text \<open>What \<open>save_metadata\<close> returns, case by case.\<close>

lemma save_metadata_result:
  assumes el: "cls (objs st s) \<noteq> NodeComment" and ok: "tree_ok st" and mem: "s \<in> set (nodes st)"
  shows "save_metadata (Suc n) e st s =
     Return
      (let md = recompute_metadata e st s;
           t = sentinel @ '' '' @ encode e md;
           st1 = upd st s (\<lambda>me. me\<lparr>metadata := md\<rparr>);
           M = filter (is_meta_comment st) (children (objs st s))
       in if allowed_children (cls (objs st s)) = []
             \<and> ''<node_text>'' \<notin> set (property_keys (cls (objs st s)))
          then st1
          else if md_empty md then without_children st1 s (set M)
          else if M \<noteq> [] then with_text st1 (set M) t
          else if cls (objs st s) = NodeConfigTypeDesc \<and> children (objs st s) \<noteq> []
          then with_new_comment st s md t
          else with_meta_comment st s md t)"
proof -
  note d = tree_okD[OF ok mem]
  consider (leaf) "allowed_children (cls (objs st s)) = []
                   \<and> ''<node_text>'' \<notin> set (property_keys (cls (objs st s)))"
    | (rem) "allowed_children (cls (objs st s)) \<noteq> []
             \<or> ''<node_text>'' \<in> set (property_keys (cls (objs st s)))"
            "md_empty (recompute_metadata e st s)"
    | (upd) "allowed_children (cls (objs st s)) \<noteq> []
             \<or> ''<node_text>'' \<in> set (property_keys (cls (objs st s)))"
            "\<not> md_empty (recompute_metadata e st s)"
            "filter (is_meta_comment st) (children (objs st s)) \<noteq> []"
    | (blocked) "allowed_children (cls (objs st s)) \<noteq> []
             \<or> ''<node_text>'' \<in> set (property_keys (cls (objs st s)))"
            "\<not> md_empty (recompute_metadata e st s)"
            "filter (is_meta_comment st) (children (objs st s)) = []"
            "cls (objs st s) = NodeConfigTypeDesc \<and> children (objs st s) \<noteq> []"
    | (app) "allowed_children (cls (objs st s)) \<noteq> []
             \<or> ''<node_text>'' \<in> set (property_keys (cls (objs st s)))"
            "\<not> md_empty (recompute_metadata e st s)"
            "filter (is_meta_comment st) (children (objs st s)) = []"
            "cls (objs st s) \<noteq> NodeConfigTypeDesc \<or> children (objs st s) = []"
    by blast
  then show ?thesis
  proof cases
    case leaf
    then show ?thesis using save_metadata_leaf[OF el, where e = e and n = "Suc n"] by (simp add: Let_def)
  next
    case rem
    then show ?thesis
      using save_metadata_remove[OF el rem(1) rem(2) d(1) d(2), where n = "Suc n"]
      by (auto simp add: Let_def)
  next
    case upd
    then show ?thesis
      using save_metadata_update[OF el upd(1) upd(2) upd(3), where n = "Suc n"]
      by (auto simp add: Let_def)
  next
    case blocked
    then show ?thesis
      using save_metadata_blocked[OF _ _ mem blocked(2) blocked(3), where n = "Suc n"]
      by (auto simp add: Let_def)
  next
    case app
    then show ?thesis
      using save_metadata_append[OF el app(1) app(4) mem d(3) app(2) app(3), where n = n]
      by (auto simp add: Let_def)
  qed
qed

text \<open>
  C8, as stated: after \<^verbatim>\<open>save_metadata\<close>, a sentinel comment that existed has been updated, or removed
  when the mapping is empty. A default type has no allowed children and no text property,
  so \<^verbatim>\<open>save_metadata\<close> returns at line 270, before the loop: its sentinel comment is still its child,
  with the text it had, though the mapping is empty.
\<close>

theorem save_metadata_comment_counterexample:
  "cls (objs leaf_doc 1) = NodeComment
   \<and> startswith (node_text (objs leaf_doc 1)) sentinel
   \<and> children (objs leaf_doc 0) = [1]
   \<and> md_empty (recompute_metadata env0 leaf_doc 0)
   \<and> (\<exists>st'. save_metadata (Suc 0) env0 leaf_doc 0 = Return st'
          \<and> children (objs st' 0) = [1]
          \<and> node_text (objs st' 1) = ''<designer.metadata.do.not.edit> {}'')"
proof -
  have el: "cls (objs leaf_doc 0) \<noteq> NodeComment" by (simp add: leaf_doc_def init_def made_def placed_def)
  have a: "allowed_children (cls (objs leaf_doc 0)) = []" by (simp add: leaf_doc_def init_def made_def placed_def)
  have b: "''<node_text>'' \<notin> set (property_keys (cls (objs leaf_doc 0)))"
    by (simp add: leaf_doc_def init_def made_def placed_def)
  have c: "cls (objs leaf_doc 1) = NodeComment \<and> startswith (node_text (objs leaf_doc 1)) sentinel
      \<and> children (objs leaf_doc 0) = [1]"
    by (simp add: leaf_doc_def init_def made_def placed_def startswith_def sentinel_def)
  have d: "md_empty (recompute_metadata env0 leaf_doc 0)"
    by (simp add: leaf_doc_def init_def made_def placed_def recompute_metadata_def md_empty_def zfill_def Let_def
        empty_metadata_def)
  have "children (objs (upd leaf_doc 0 (\<lambda>me. me\<lparr>metadata := recompute_metadata env0 leaf_doc 0\<rparr>)) 0) = [1]
      \<and> node_text (objs (upd leaf_doc 0 (\<lambda>me. me\<lparr>metadata := recompute_metadata env0 leaf_doc 0\<rparr>)) 1)
          = ''<designer.metadata.do.not.edit> {}''"
    by (simp add: objs_upd) (simp add: leaf_doc_def)
  with save_metadata_leaf[OF el a b, of "Suc 0" env0] c d show ?thesis by simp
qed

text \<open>
  C8, amended: \<^verbatim>\<open>save_metadata\<close> on an element of a well-formed store returns, with the recomputed
  mapping stored on the node. On a type with no allowed children and no text property it
  changes no child list and no text: such a node never acquires a metadata comment, and
  one it already holds is neither updated nor removed. On every other type: the sentinel
  comments among the children are updated in place to the sentinel, a space and the
  encoded mapping when the mapping is not empty, and are removed (the other children
  keeping their order) when it is empty; when there is none and the mapping is empty,
  the child lists stay as they were; when there is none and the mapping is not empty, a
  new sentinel comment is appended as the last child. The last case is stated for every
  node but a type descriptor that already has a child: there \<^verbatim>\<open>add_child\<close> refuses the
  comment that \<^verbatim>\<open>save_metadata\<close> hands it, and the mapping does not reach the tree, which
  departs from this rule.
\<close>

theorem save_metadata_comment:
  assumes el: "cls (objs st s) \<noteq> NodeComment" and ok: "tree_ok st" and mem: "s \<in> set (nodes st)"
  shows "\<exists>st'. save_metadata (Suc n) e st s = Return st'
     \<and> metadata (objs st' s) = recompute_metadata e st s
     \<and> (allowed_children (cls (objs st s)) = []
          \<and> ''<node_text>'' \<notin> set (property_keys (cls (objs st s))) \<longrightarrow>
        nodes st' = nodes st
        \<and> (\<forall>i. children (objs st' i) = children (objs st i)
                \<and> node_text (objs st' i) = node_text (objs st i)))
     \<and> (allowed_children (cls (objs st s)) \<noteq> []
          \<or> ''<node_text>'' \<in> set (property_keys (cls (objs st s))) \<longrightarrow>
        ((\<exists>c \<in> set (children (objs st s)). is_meta_comment st c)
           \<and> \<not> md_empty (recompute_metadata e st s) \<longrightarrow>
          children (objs st' s) = children (objs st s)
          \<and> (\<forall>c. node_text (objs st' c) =
                (if c \<in> set (children (objs st s)) \<and> is_meta_comment st c
                 then sentinel @ '' '' @ encode e (recompute_metadata e st s)
                 else node_text (objs st c))))
        \<and> ((\<exists>c \<in> set (children (objs st s)). is_meta_comment st c)
           \<and> md_empty (recompute_metadata e st s) \<longrightarrow>
          children (objs st' s) = filter (\<lambda>c. \<not> is_meta_comment st c) (children (objs st s))
          \<and> (\<forall>c \<in> set (children (objs st s)). is_meta_comment st c \<longrightarrow> parent (objs st' c) = None))
        \<and> (\<not> (\<exists>c \<in> set (children (objs st s)). is_meta_comment st c)
           \<and> \<not> md_empty (recompute_metadata e st s)
           \<and> (cls (objs st s) \<noteq> NodeConfigTypeDesc \<or> children (objs st s) = []) \<longrightarrow>
          children (objs st' s) = children (objs st s) @ [fresh_id st]
          \<and> fresh_id st \<notin> set (nodes st)
          \<and> cls (objs st' (fresh_id st)) = NodeComment
          \<and> parent (objs st' (fresh_id st)) = Some s
          \<and> node_text (objs st' (fresh_id st))
              = sentinel @ '' '' @ encode e (recompute_metadata e st s))
        \<and> (\<not> (\<exists>c \<in> set (children (objs st s)). is_meta_comment st c)
           \<and> md_empty (recompute_metadata e st s) \<longrightarrow>
          nodes st' = nodes st
          \<and> (\<forall>i. children (objs st' i) = children (objs st i))))"
proof -
  let ?md = "recompute_metadata e st s"
  let ?M = "filter (is_meta_comment st) (children (objs st s))"
  from mem fresh_id_fresh[of st] have ne: "s \<noteq> fresh_id st" by auto
  from el have sM: "s \<notin> set ?M" by (simp add: is_meta_comment_def)
  have Mmem: "c \<in> set ?M \<longleftrightarrow> c \<in> set (children (objs st s)) \<and> is_meta_comment st c" for c
    by simp
  have Mempty: "?M = [] \<longleftrightarrow> \<not> (\<exists>c \<in> set (children (objs st s)). is_meta_comment st c)"
    by (rule filter_meta_empty)
  note r = save_metadata_result[OF el ok mem, of n e]
  show ?thesis
  proof (intro exI conjI impI)
    show "save_metadata (Suc n) e st s = Return (let md = recompute_metadata e st s;
           t = sentinel @ '' '' @ encode e md;
           st1 = upd st s (\<lambda>me. me\<lparr>metadata := md\<rparr>);
           M = filter (is_meta_comment st) (children (objs st s))
       in if allowed_children (cls (objs st s)) = []
             \<and> ''<node_text>'' \<notin> set (property_keys (cls (objs st s)))
          then st1
          else if md_empty md then without_children st1 s (set M)
          else if M \<noteq> [] then with_text st1 (set M) t
          else if cls (objs st s) = NodeConfigTypeDesc \<and> children (objs st s) \<noteq> []
          then with_new_comment st s md t
          else with_meta_comment st s md t)" by (rule r)
  qed (use ne sM fresh_id_fresh[of st] in
        \<open>auto simp add: Let_def objs_upd without_children_def with_text_def with_new_comment_def
           with_meta_comment_def filter_not_in_filter filter_in_imp Mempty init_def\<close>)
qed

theorem save_metadata_comment_witness:
  "cls (objs ranked_doc 0) \<noteq> NodeComment \<and> tree_ok ranked_doc \<and> 0 \<in> set (nodes ranked_doc)
   \<and> (\<exists>st'. save_metadata (Suc 0) env0 ranked_doc 0 = Return st'
          \<and> children (objs st' 0) = [1, 2]
          \<and> cls (objs st' 2) = NodeComment
          \<and> node_text (objs st' 2) = ''<designer.metadata.do.not.edit> {}'')"
proof -
  have el: "cls (objs ranked_doc 0) \<noteq> NodeComment" by (simp add: ranked_doc_def init_def made_def placed_def)
  have ok: "tree_ok ranked_doc" by (simp add: tree_ok_def ranked_doc_def init_def made_def placed_def)
  have mem: "0 \<in> set (nodes ranked_doc)" by (simp add: ranked_doc_def)
  have a: "allowed_children (cls (objs ranked_doc 0)) \<noteq> []"
    by (simp add: ranked_doc_def init_def made_def placed_def)
  have b: "\<not> (\<exists>c \<in> set (children (objs ranked_doc 0)). is_meta_comment ranked_doc c)"
    by (simp add: ranked_doc_def init_def made_def placed_def is_meta_comment_def)
  have c: "\<not> md_empty (recompute_metadata env0 ranked_doc 0)"
    by (simp add: ranked_doc_def init_def made_def placed_def recompute_metadata_def md_empty_def zfill_def Let_def)
  have d: "cls (objs ranked_doc 0) \<noteq> NodeConfigTypeDesc" by (simp add: ranked_doc_def init_def made_def placed_def)
  have f: "fresh_id ranked_doc = 2" by (simp add: fresh_id_def ranked_doc_def)
  have ch: "children (objs ranked_doc 0) = [1]" by (simp add: ranked_doc_def)
  have t: "sentinel @ '' '' @ encode env0 (recompute_metadata env0 ranked_doc 0)
             = ''<designer.metadata.do.not.edit> {}''"
    by (simp add: sentinel_def env0_def)
  from save_metadata_comment[OF el ok mem, of 0 env0] a b c d
  obtain st' where "save_metadata (Suc 0) env0 ranked_doc 0 = Return st'"
    and "children (objs st' 0) = children (objs ranked_doc 0) @ [fresh_id ranked_doc]"
    and "cls (objs st' (fresh_id ranked_doc)) = NodeComment"
    and "node_text (objs st' (fresh_id ranked_doc))
           = sentinel @ '' '' @ encode env0 (recompute_metadata env0 ranked_doc 0)"
    by blast
  then have "\<exists>st'. save_metadata (Suc 0) env0 ranked_doc 0 = Return st'
          \<and> children (objs st' 0) = [1, 2]
          \<and> cls (objs st' 2) = NodeComment
          \<and> node_text (objs st' 2) = ''<designer.metadata.do.not.edit> {}''"
    unfolding f ch t by auto
  with el ok mem show ?thesis by blast
qed

text \<open>
  C4: \<^verbatim>\<open>load_metadata\<close> on a node whose metadata comment is the sentinel alone does not
  return: \<^verbatim>\<open>child.text.split(maxsplit=1)\<close> is a list of one element, the index 1 raises
  \<^verbatim>\<open>IndexError\<close>, and the handler of line 230 catches \<^verbatim>\<open>JSONDecodeError\<close> only. Nothing
  had been assigned: the store is as it was.
\<close>

theorem load_metadata_bare_sentinel:
  "load_metadata n e bare_sentinel_doc 0 = Raise IndexError bare_sentinel_doc"
proof -
  have "upd bare_sentinel_doc 0 (\<lambda>me. me\<lparr>metadata := metadata (objs bare_sentinel_doc 0)\<rparr>)
          = bare_sentinel_doc"
    by (rule state_eqI) (simp_all add: objs_upd)
  then show ?thesis
    by (subst load_metadata.simps)
       (simp add: bare_sentinel_doc_def init_def made_def placed_def startswith_def sentinel_def
          split_maxsplit1_def isspace_def Let_def)
qed

section \<open>Properties of hiding\<close>

lemma tree_ok_cong:
  assumes "nodes st' = nodes st"
    and "\<And>i. parent (objs st' i) = parent (objs st i)"
    and "\<And>i. children (objs st' i) = children (objs st i)"
  shows "tree_ok st' = tree_ok st"
  unfolding tree_ok_def assms by (rule refl)

lemma save_metadata_frame:
  assumes el: "cls (objs st s) \<noteq> NodeComment" and ok: "tree_ok st" and mem: "s \<in> set (nodes st)"
  shows "\<exists>st'. save_metadata (Suc n) e st s = Return st'
          \<and> (\<forall>i \<in> set (nodes st). is_hidden (objs st' i) = is_hidden (objs st i)
                \<and> hidden_children (objs st' i) = hidden_children (objs st i))"
proof -
  have "i \<noteq> fresh_id st" if "i \<in> set (nodes st)" for i
    using that fresh_id_fresh[of st] by auto
  then show ?thesis
    unfolding save_metadata_result[OF el ok mem]
    by (auto simp add: Let_def objs_upd without_children_def with_text_def with_new_comment_def
          with_meta_comment_def)
qed

text \<open>
  C9, as stated: \<^verbatim>\<open>set_hidden(flag)\<close> on a root raises rather than toggling. Line 171
  assigns \<^verbatim>\<open>self.is_hidden\<close> before line 174 asks for the parent: on the root of the plugin
  document, which is not hidden, \<^verbatim>\<open>set_hidden(True)\<close> raises and leaves the root with
  \<^verbatim>\<open>is_hidden\<close> true.
\<close>

theorem set_hidden_root_counterexample:
  "parent (objs plugin_doc 0) = None \<and> \<not> is_hidden (objs plugin_doc 0)
   \<and> (\<exists>st'. set_hidden (Suc 0) env0 plugin_doc 0 True = Raise AttributeError st'
          \<and> is_hidden (objs st' 0))"
  by (subst set_hidden.simps)
     (simp add: plugin_doc_def init_def made_def placed_def Let_def objs_upd)

text \<open>
  C9, amended: \<^verbatim>\<open>set_hidden\<close> is partial. On an element that has no parent,
  \<^verbatim>\<open>set_hidden(flag)\<close> assigns \<^verbatim>\<open>is_hidden = flag\<close> and then raises (\<^verbatim>\<open>getparent()\<close> of a
  root is \<^verbatim>\<open>None\<close>): the flag is toggled and nothing else is changed. \<^verbatim>\<open>set_hidden(False)\<close>
  on an element that is not in its parent's \<^verbatim>\<open>hidden_children\<close> assigns \<^verbatim>\<open>is_hidden =
  False\<close> and then raises (\<^verbatim>\<open>remove\<close> of the list), nothing else changed. On an element
  of a well-formed store that has a parent and, when unhiding, is in the parent's
  \<^verbatim>\<open>hidden_children\<close>, the call returns, with the flag set and the element appended to,
  or removed from, the parent's \<^verbatim>\<open>hidden_children\<close>.
\<close>

theorem set_hidden_partial:
  assumes el: "cls (objs st x) \<noteq> NodeComment"
  shows "(parent (objs st x) = None \<longrightarrow>
            set_hidden n e st x hide
              = Raise AttributeError (upd st x (\<lambda>me. me\<lparr>is_hidden := hide\<rparr>)))
     \<and> (\<forall>p. parent (objs st x) = Some p \<and> cls (objs st p) \<noteq> NodeComment
            \<and> \<not> hide \<and> x \<notin> set (hidden_children (objs st p)) \<longrightarrow>
            set_hidden n e st x hide
              = Raise ValueError (upd st x (\<lambda>me. me\<lparr>is_hidden := False\<rparr>)))
     \<and> (\<forall>p. parent (objs st x) = Some p \<and> cls (objs st p) \<noteq> NodeComment
            \<and> (hide \<or> x \<in> set (hidden_children (objs st p)))
            \<and> tree_ok st \<and> p \<in> set (nodes st) \<and> x \<in> set (nodes st) \<longrightarrow>
            (\<exists>st'. set_hidden (Suc n) e st x hide = Return st'
               \<and> is_hidden (objs st' x) = hide
               \<and> hidden_children (objs st' p)
                   = (if hide then hidden_children (objs st p) @ [x]
                      else remove1 x (hidden_children (objs st p)))))"
proof (intro conjI allI impI)
  assume "parent (objs st x) = None"
  with el show "set_hidden n e st x hide
      = Raise AttributeError (upd st x (\<lambda>me. me\<lparr>is_hidden := hide\<rparr>))"
    by (subst set_hidden.simps) (simp add: Let_def objs_upd)
next
  fix p
  assume "parent (objs st x) = Some p \<and> cls (objs st p) \<noteq> NodeComment
            \<and> \<not> hide \<and> x \<notin> set (hidden_children (objs st p))"
  with el show "set_hidden n e st x hide
      = Raise ValueError (upd st x (\<lambda>me. me\<lparr>is_hidden := False\<rparr>))"
    by (subst set_hidden.simps) (auto simp add: Let_def objs_upd)
next
  fix p
  assume h: "parent (objs st x) = Some p \<and> cls (objs st p) \<noteq> NodeComment
            \<and> (hide \<or> x \<in> set (hidden_children (objs st p)))
            \<and> tree_ok st \<and> p \<in> set (nodes st) \<and> x \<in> set (nodes st)"
  define st1 where "st1 = upd st x (\<lambda>me. me\<lparr>is_hidden := hide\<rparr>)"
  define st2 where "st2 = upd st1 p (\<lambda>pn. pn\<lparr>hidden_children :=
      (if hide then hidden_children pn @ [x] else remove1 x (hidden_children pn))\<rparr>)"
  have hc1: "hidden_children (objs st1 p) = hidden_children (objs st p)"
    and c1: "cls (objs st1 p) = cls (objs st p)" and p1: "parent (objs st1 x) = Some p"
    using h by (simp_all add: st1_def objs_upd)
  have call: "set_hidden (Suc n) e st x hide = save_metadata (Suc n) e st2 p"
    using el h
    by (subst set_hidden.simps) (auto simp add: Let_def st1_def[symmetric] st2_def p1 c1 hc1)
  have ok2: "tree_ok st2"
    using h tree_ok_cong[of st2 st] by (simp add: st2_def st1_def objs_upd)
  have el2: "cls (objs st2 p) \<noteq> NodeComment" using h el by (simp add: st2_def st1_def objs_upd)
  have mem2: "p \<in> set (nodes st2)" "x \<in> set (nodes st2)" using h by (simp_all add: st2_def st1_def)
  have x2: "is_hidden (objs st2 x) = hide" by (simp add: st2_def st1_def objs_upd)
  have p2: "hidden_children (objs st2 p)
      = (if hide then hidden_children (objs st p) @ [x] else remove1 x (hidden_children (objs st p)))"
    by (simp add: st2_def st1_def objs_upd)
  from save_metadata_frame[OF el2 ok2 mem2(1), of n e] mem2 x2 p2
  show "\<exists>st'. set_hidden (Suc n) e st x hide = Return st'
               \<and> is_hidden (objs st' x) = hide
               \<and> hidden_children (objs st' p)
                   = (if hide then hidden_children (objs st p) @ [x]
                      else remove1 x (hidden_children (objs st p)))"
    unfolding call by auto
qed

theorem set_hidden_partial_witness:
  "cls (objs plugin_doc 1) \<noteq> NodeComment \<and> parent (objs plugin_doc 1) = Some 0
   \<and> cls (objs plugin_doc 0) \<noteq> NodeComment \<and> tree_ok plugin_doc
   \<and> 0 \<in> set (nodes plugin_doc) \<and> 1 \<in> set (nodes plugin_doc)
   \<and> (\<exists>st'. set_hidden (Suc 0) env0 plugin_doc 1 True = Return st'
          \<and> is_hidden (objs st' 1) \<and> hidden_children (objs st' 0) = [1])
   \<and> parent (objs plugin_doc 2) = Some 0 \<and> 2 \<notin> set (hidden_children (objs plugin_doc 0))
   \<and> set_hidden (Suc 0) env0 plugin_doc 2 False
       = Raise ValueError (upd plugin_doc 2 (\<lambda>me. me\<lparr>is_hidden := False\<rparr>))
   \<and> parent (objs plugin_doc 0) = None
   \<and> set_hidden (Suc 0) env0 plugin_doc 0 True
       = Raise AttributeError (upd plugin_doc 0 (\<lambda>me. me\<lparr>is_hidden := True\<rparr>))"
proof -
  have a: "cls (objs plugin_doc 1) \<noteq> NodeComment" "parent (objs plugin_doc 1) = Some 0"
    "cls (objs plugin_doc 0) \<noteq> NodeComment" "0 \<in> set (nodes plugin_doc)"
    "1 \<in> set (nodes plugin_doc)" "parent (objs plugin_doc 2) = Some 0"
    "2 \<notin> set (hidden_children (objs plugin_doc 0))" "parent (objs plugin_doc 0) = None"
    "cls (objs plugin_doc 2) \<noteq> NodeComment" "hidden_children (objs plugin_doc 0) = []"
    by (simp_all add: plugin_doc_def init_def made_def placed_def)
  have ok: "tree_ok plugin_doc"
    by (simp add: tree_ok_def plugin_doc_def init_def made_def placed_def)
  from set_hidden_partial[OF a(1), of 0 env0 True] a ok
  have h: "\<exists>st'. set_hidden (Suc 0) env0 plugin_doc 1 True = Return st'
          \<and> is_hidden (objs st' 1) \<and> hidden_children (objs st' 0) = [1]"
    by simp
  from set_hidden_partial[OF a(9), of "Suc 0" env0 False] a
  have u: "set_hidden (Suc 0) env0 plugin_doc 2 False
       = Raise ValueError (upd plugin_doc 2 (\<lambda>me. me\<lparr>is_hidden := False\<rparr>))" by simp
  from set_hidden_partial[OF a(3), of "Suc 0" env0 True] a
  have r: "set_hidden (Suc 0) env0 plugin_doc 0 True
       = Raise AttributeError (upd plugin_doc 0 (\<lambda>me. me\<lparr>is_hidden := True\<rparr>))" by simp
  from a ok h u r show ?thesis by blast
qed

section \<open>Either-group exclusivity of the type descriptor\<close>

text \<open>
  C6: a type descriptor with no element children does not always accept a dependency
  type. \<^verbatim>\<open>len(self)\<close> counts the comments too: a type descriptor whose only child is a
  comment refuses the dependency type, and \<^verbatim>\<open>add_child\<close> leaves the store as it was. The
  comment may be the program's own: \<^verbatim>\<open>save_metadata\<close> on an empty type descriptor with a
  user rank appends the metadata comment, and from then on the type descriptor refuses
  the dependency type.
\<close>

theorem typedesc_comment_blocks:
  "cls (objs commented_doc 0) = NodeConfigTypeDesc
   \<and> filter (\<lambda>c. cls (objs commented_doc c) \<noteq> NodeComment) (children (objs commented_doc 0)) = []
   \<and> cls (objs commented_doc 2) = NodeConfigDependencyType
   \<and> parent (objs commented_doc 2) = None
   \<and> can_add_child commented_doc 0 2 = Return False
   \<and> add_child (Suc 0) env0 commented_doc 0 2 = Return commented_doc
   \<and> cls (objs ranked_typedesc_doc 0) = NodeConfigTypeDesc
   \<and> children (objs ranked_typedesc_doc 0) = []
   \<and> can_add_child ranked_typedesc_doc 0 1 = Return True
   \<and> (\<exists>st'. save_metadata (Suc 0) env0 ranked_typedesc_doc 0 = Return st'
          \<and> children (objs st' 0) = [2] \<and> cls (objs st' 2) = NodeComment
          \<and> cls (objs st' 0) = NodeConfigTypeDesc
          \<and> cls (objs st' 1) = NodeConfigDependencyType \<and> parent (objs st' 1) = None
          \<and> can_add_child st' 0 1 = Return False
          \<and> add_child (Suc 0) env0 st' 0 1 = Return st')"
proof -
  have a: "cls (objs commented_doc 0) = NodeConfigTypeDesc
   \<and> filter (\<lambda>c. cls (objs commented_doc c) \<noteq> NodeComment) (children (objs commented_doc 0)) = []
   \<and> cls (objs commented_doc 2) = NodeConfigDependencyType
   \<and> parent (objs commented_doc 2) = None"
    by (simp add: commented_doc_def init_def made_def placed_def)
  have b: "can_add_child commented_doc 0 2 = Return False"
    by (simp add: can_add_child_def can_add_child_base_def)
       (simp add: commented_doc_def init_def made_def placed_def)
  have c: "add_child (Suc 0) env0 commented_doc 0 2 = Return commented_doc"
    using a b by (simp add: add_child.simps)
  have d: "cls (objs ranked_typedesc_doc 0) = NodeConfigTypeDesc
   \<and> children (objs ranked_typedesc_doc 0) = []
   \<and> can_add_child ranked_typedesc_doc 0 1 = Return True"
    by (simp add: can_add_child_def can_add_child_base_def)
       (simp add: ranked_typedesc_doc_def init_def made_def placed_def)
  have el: "cls (objs ranked_typedesc_doc 0) \<noteq> NodeComment" using d by simp
  have ok: "tree_ok ranked_typedesc_doc"
    by (simp add: tree_ok_def ranked_typedesc_doc_def init_def made_def)
  have mem: "0 \<in> set (nodes ranked_typedesc_doc)" by (simp add: ranked_typedesc_doc_def)
  have f: "fresh_id ranked_typedesc_doc = 2" by (simp add: fresh_id_def ranked_typedesc_doc_def)
  have ne: "\<not> md_empty (recompute_metadata env0 ranked_typedesc_doc 0)"
    by (simp add: ranked_typedesc_doc_def init_def made_def recompute_metadata_def md_empty_def
        zfill_def Let_def)
  have nm: "filter (is_meta_comment ranked_typedesc_doc) (children (objs ranked_typedesc_doc 0)) = []"
    using d by simp
  define st' where "st' = with_meta_comment ranked_typedesc_doc 0
      (recompute_metadata env0 ranked_typedesc_doc 0)
      (sentinel @ '' '' @ encode env0 (recompute_metadata env0 ranked_typedesc_doc 0))"
  have s: "save_metadata (Suc 0) env0 ranked_typedesc_doc 0 = Return st'"
    unfolding save_metadata_result[OF el ok mem] st'_def using d ne nm by (simp add: Let_def)
  have o: "children (objs st' 0) = [2] \<and> cls (objs st' 2) = NodeComment
      \<and> cls (objs st' 0) = NodeConfigTypeDesc
      \<and> cls (objs st' 1) = NodeConfigDependencyType \<and> parent (objs st' 1) = None"
    unfolding st'_def with_meta_comment_def f
    by (simp add: ranked_typedesc_doc_def init_def made_def)
  have g: "can_add_child st' 0 1 = Return False"
    using o by (simp add: can_add_child_def)
  have h: "add_child (Suc 0) env0 st' 0 1 = Return st'"
    using o g by (simp add: add_child.simps)
  from a b c d s o g h show ?thesis by blast
qed

end
